theory Spec2Isabelle
  imports Complex_Main "HOL-Library.Multiset"
begin

section \<open>The shared utilities (utils)\<close>

text \<open>
  The games draw all their randomness from \<^verbatim>\<open>Math.random()\<close>. A run of the program
  sees one sequence of draws; the model takes that sequence as a parameter \<open>rnd\<close>
  (\<open>rnd k\<close> is the result of the \<open>k\<close>-th call) and every function that draws takes the
  position of the next draw and returns the position after its last one. The draws are
  real numbers; \<^verbatim>\<open>Math.random()\<close> promises a value in the half-open unit interval, which
  is the predicate \<open>in_unit\<close>.
\<close>

type_synonym rng = "nat \<Rightarrow> real"

definition in_unit :: "rng \<Rightarrow> bool" where
  "in_unit rnd = (\<forall>k. 0 \<le> rnd k \<and> rnd k < 1)"

text \<open>
  \<^verbatim>\<open>getRandomInt = (min, max) => Math.floor(Math.random() * (max - min + 1)) + min\<close>
\<close>

definition getRandomInt :: "rng \<Rightarrow> nat \<Rightarrow> int \<Rightarrow> int \<Rightarrow> int \<times> nat" where
  "getRandomInt rnd i lo hi = (\<lfloor>rnd i * of_int (hi - lo + 1)\<rfloor> + lo, i + 1)"

text \<open>
  \<^verbatim>\<open>shuffleArray = (array) => [...array].sort(() => Math.random() - 0.5)\<close>

  The comparator ignores its arguments and answers with a fresh draw minus one half.
  \<^verbatim>\<open>Array.prototype.sort\<close> belongs to the engine; it is modelled as a stable insertion
  sort that calls the comparator once for every comparison it makes: a negative answer
  puts the new element in front of the element it was compared with.
\<close>

fun sort_insert :: "rng \<Rightarrow> nat \<Rightarrow> 'a \<Rightarrow> 'a list \<Rightarrow> 'a list \<times> nat" where
  "sort_insert rnd i x [] = ([x], i)"
| "sort_insert rnd i x (y # ys) =
     (if rnd i - 1 / 2 < 0 then (x # y # ys, i + 1)
      else (case sort_insert rnd (i + 1) x ys of (zs, j) \<Rightarrow> (y # zs, j)))"

fun sort_random :: "rng \<Rightarrow> nat \<Rightarrow> 'a list \<Rightarrow> 'a list \<Rightarrow> 'a list \<times> nat" where
  "sort_random rnd i done [] = (done, i)"
| "sort_random rnd i done (x # xs) =
     (case sort_insert rnd i x done of (done', j) \<Rightarrow> sort_random rnd j done' xs)"

definition shuffleArray :: "rng \<Rightarrow> nat \<Rightarrow> 'a list \<Rightarrow> 'a list \<times> nat" where
  "shuffleArray rnd i array = sort_random rnd i [] array"

text \<open>
  The same function over an explicit store of arrays, to speak about the argument after
  the call: an array is an address into the store, the spread \<^verbatim>\<open>[...array]\<close> allocates
  a new array holding a copy, and \<^verbatim>\<open>sort\<close> works in place on that new array and
  returns its address.
\<close>

type_synonym 'a store = "'a list list"

definition spread_copy :: "'a store \<Rightarrow> nat \<Rightarrow> nat \<times> 'a store" where
  "spread_copy h a = (length h, h @ [h ! a])"

definition sort_in_place :: "rng \<Rightarrow> nat \<Rightarrow> 'a store \<Rightarrow> nat \<Rightarrow> 'a store \<times> nat" where
  "sort_in_place rnd i h p =
     (case sort_random rnd i [] (h ! p) of (ys, j) \<Rightarrow> (h[p := ys], j))"

definition shuffleArray_store :: "rng \<Rightarrow> nat \<Rightarrow> 'a store \<Rightarrow> nat \<Rightarrow> nat \<times> 'a store \<times> nat" where
  "shuffleArray_store rnd i h a =
     (case spread_copy h a of (p, h1) \<Rightarrow>
        (case sort_in_place rnd i h1 p of (h2, j) \<Rightarrow> (p, h2, j)))"

text \<open>
  \<^verbatim>\<open>Array.from({ length: n }, f)\<close> calls \<open>f\<close> for the indices \<open>0, 1, ..., n - 1\<close> in
  this order; here \<open>f\<close> also threads the position of the next draw.
\<close>

fun array_from :: "(nat \<Rightarrow> nat \<Rightarrow> 'a \<times> nat) \<Rightarrow> nat \<Rightarrow> nat \<Rightarrow> nat \<Rightarrow> 'a list \<times> nat" where
  "array_from f idx 0 i = ([], i)"
| "array_from f idx (Suc n) i =
     (case f idx i of (x, j) \<Rightarrow>
        (case array_from f (idx + 1) n j of (xs, k) \<Rightarrow> (x # xs, k)))"

text \<open>A sample sequence of draws, alternating between one quarter and three quarters.\<close>

definition draws_alt :: rng where
  "draws_alt k = (if even k then 1 / 4 else 3 / 4)"

text \<open>Another one: every draw is one half.\<close>

definition draws_half :: rng where
  "draws_half k = 1 / 2"

text \<open>A third one cycles through the tenths: 0, 0.1, ..., 0.9, 0, ...\<close>

definition draws_cycle :: rng where
  "draws_cycle k = real (k mod 10) / 10"

section \<open>Numbers as text\<close>

text \<open>
  A template literal \<^verbatim>\<open>`${n}`\<close> writes an integer in decimal, with a leading minus
  sign when it is negative.
\<close>

definition digit_char :: "nat \<Rightarrow> char" where
  "digit_char d = ''0123456789'' ! d"

function show_nat :: "nat \<Rightarrow> string" where
  "show_nat n = (if n < 10 then [digit_char n] else show_nat (n div 10) @ [digit_char (n mod 10)])"
  by pat_completeness auto
termination
  by (relation "measure id") auto

declare show_nat.simps [simp del]

definition show_int :: "int \<Rightarrow> string" where
  "show_int n = (if n < 0 then CHR ''-'' # show_nat (nat (- n)) else show_nat (nat n))"

section \<open>CongSo: the sums worksheet\<close>

text \<open>
  \<^verbatim>\<open>interface SumProblem { id: number; numbers: number[]; answer: number; }\<close>
  The component state is \<^verbatim>\<open>problems\<close> and \<^verbatim>\<open>userAnswers\<close>. Field names carry the
  component's initials where several components use the same name.
\<close>

record SumProblem =
  sum_id :: nat
  numbers :: "int list"
  answer :: int

record CongSo_state =
  cs_problems :: "SumProblem list"
  cs_userAnswers :: "nat \<rightharpoonup> string"

text \<open>
  The body of the callback of \<^verbatim>\<open>Array.from({ length: 6 }, (_, i) => ...)\<close>: it draws
  \<^verbatim>\<open>numCount = getRandomInt(2, 3)\<close>, then \<^verbatim>\<open>numCount\<close> operands
  \<^verbatim>\<open>getRandomInt(0, 9)\<close>, and sums them with \<^verbatim>\<open>reduce((sum, num) => sum + num, 0)\<close>.
  A length is never negative: \<^verbatim>\<open>Array.from\<close> reads a negative length as 0.
\<close>

definition sum_problem :: "rng \<Rightarrow> nat \<Rightarrow> nat \<Rightarrow> SumProblem \<times> nat" where
  "sum_problem rnd idx i =
     (case getRandomInt rnd i 2 3 of (numCount, j) \<Rightarrow>
        (case array_from (\<lambda>_ k. getRandomInt rnd k 0 9) 0 (nat numCount) j of (nums, k) \<Rightarrow>
           (\<lparr>sum_id = idx, numbers = nums, answer = foldl (\<lambda>sum num. sum + num) 0 nums\<rparr>, k)))"

definition generateProblems :: "rng \<Rightarrow> nat \<Rightarrow> CongSo_state \<times> nat" where
  "generateProblems rnd i =
     (case array_from (sum_problem rnd) 0 6 i of (newProblems, j) \<Rightarrow>
        (\<lparr>cs_problems = newProblems, cs_userAnswers = Map.empty\<rparr>, j))"

section \<open>MaHoaPhepTinh: the symbol sums with a legend (local generation)\<close>

text \<open>
  A JavaScript number as the game meets it: an integer, \<^verbatim>\<open>undefined\<close> (what reading
  a missing array index or a missing key gives), or \<^verbatim>\<open>NaN\<close> (what adding
  \<^verbatim>\<open>undefined\<close> gives).
\<close>

datatype jsnum = Num int | Undefined | NaN

fun js_add :: "jsnum \<Rightarrow> jsnum \<Rightarrow> jsnum" where
  "js_add (Num a) (Num b) = Num (a + b)"
| "js_add _ _ = NaN"

text \<open>\<^verbatim>\<open>xs[k]\<close>: the element, or \<^verbatim>\<open>undefined\<close> (here \<open>None\<close>) outside the array.\<close>

definition js_nth :: "'a list \<Rightarrow> int \<Rightarrow> 'a option" where
  "js_nth xs k = (if 0 \<le> k \<and> nat k < length xs then Some (xs ! nat k) else None)"

definition num_at :: "int list \<Rightarrow> int \<Rightarrow> jsnum" where
  "num_at xs k = (case js_nth xs k of Some n \<Rightarrow> Num n | None \<Rightarrow> Undefined)"

text \<open>
  \<^verbatim>\<open>const iconKeys = Object.keys(ICONS)\<close>: the keys of the object literal \<^verbatim>\<open>ICONS\<close>
  in the order they are written.
\<close>

definition iconKeys :: "string list" where
  "iconKeys = [''holly'', ''gift'', ''skate'', ''gingerbread'', ''tree'',
               ''stocking'', ''igloo'', ''snowman'', ''bells'']"

text \<open>
  \<^verbatim>\<open>type Legend = Record<string, number>\<close>, and
  \<^verbatim>\<open>interface SymbolProblem { id; symbol1; symbol2; answer }\<close>. A symbol read from
  \<^verbatim>\<open>iconKeys\<close> outside its range is \<^verbatim>\<open>undefined\<close>, which as a key is the
  string \<^verbatim>\<open>"undefined"\<close>.
\<close>

type_synonym Legend = "string \<rightharpoonup> jsnum"

record SymbolProblem =
  sym_id :: nat
  symbol1 :: "string option"
  symbol2 :: "string option"
  sym_answer :: jsnum

record MaHoa_state =
  mh_legend :: Legend
  mh_problems :: "SymbolProblem list"
  mh_userAnswers :: "nat \<rightharpoonup> string"

definition legend_get :: "Legend \<Rightarrow> string option \<Rightarrow> jsnum" where
  "legend_get lg s =
     (case lg (case s of None \<Rightarrow> ''undefined'' | Some key \<Rightarrow> key) of
        None \<Rightarrow> Undefined | Some v \<Rightarrow> v)"

text \<open>
  \<^verbatim>\<open>iconKeys.forEach((key, index) => { newLegend[key] = numbers[index]; })\<close>, starting
  from the empty object.
\<close>

definition fill_legend :: "string list \<Rightarrow> int list \<Rightarrow> Legend" where
  "fill_legend keys nums =
     fold (\<lambda>(index, key) newLegend. newLegend(key \<mapsto> num_at nums (int index)))
       (enumerate 0 keys) Map.empty"

definition symbol_problem :: "rng \<Rightarrow> Legend \<Rightarrow> nat \<Rightarrow> nat \<Rightarrow> SymbolProblem \<times> nat" where
  "symbol_problem rnd newLegend idx i =
     (case getRandomInt rnd i 0 8 of (a, j) \<Rightarrow>
        (case getRandomInt rnd j 0 8 of (b, k) \<Rightarrow>
           (\<lparr>sym_id = idx, symbol1 = js_nth iconKeys a, symbol2 = js_nth iconKeys b,
             sym_answer = js_add (legend_get newLegend (js_nth iconKeys a))
                                 (legend_get newLegend (js_nth iconKeys b))\<rparr>, k)))"

text \<open>
  \<^verbatim>\<open>generateGame\<close>: the numbers are
  \<^verbatim>\<open>shuffleArray(Array.from({length: 9}, (_, i) => i + 1))\<close>.
\<close>

definition generateGame :: "rng \<Rightarrow> nat \<Rightarrow> MaHoa_state \<times> nat" where
  "generateGame rnd i =
     (case shuffleArray rnd i (map (\<lambda>i. int i + 1) [0..<9]) of (nums, j) \<Rightarrow>
        (case array_from (symbol_problem rnd (fill_legend iconKeys nums)) 0 12 j of
           (newProblems, k) \<Rightarrow>
             (\<lparr>mh_legend = fill_legend iconKeys nums, mh_problems = newProblems,
               mh_userAnswers = Map.empty\<rparr>, k)))"

section \<open>NoiPhepTinh: matching sums with their results\<close>

text \<open>
  \<^verbatim>\<open>interface MatchItem { id: string; content: string; matchId: string; }\<close>; the base
  items are \<^verbatim>\<open>Omit<MatchItem, 'id'>\<close>.
\<close>

record BaseItem =
  content :: string
  matchId :: string

record MatchItem = BaseItem +
  item_id :: string

record NoiPhepTinh_state =
  npt_leftItems :: "MatchItem list"
  npt_rightItems :: "MatchItem list"
  npt_selectedLeft :: "MatchItem option"
  npt_connections :: "string \<rightharpoonup> string"

text \<open>
  The callback of \<^verbatim>\<open>Array.from({ length: 5 }, () => ...)\<close>: \<^verbatim>\<open>a = getRandomInt(0, 5)\<close>,
  \<^verbatim>\<open>b = getRandomInt(1, 5)\<close>, and the item
  \<^verbatim>\<open>{ content: `${a} + ${b}`, matchId: `${a + b}` }\<close>.
\<close>

definition base_item :: "rng \<Rightarrow> nat \<Rightarrow> nat \<Rightarrow> BaseItem \<times> nat" where
  "base_item rnd idx i =
     (case getRandomInt rnd i 0 5 of (a, j) \<Rightarrow>
        (case getRandomInt rnd j 1 5 of (b, k) \<Rightarrow>
           (\<lparr>content = show_int a @ '' + '' @ show_int b, matchId = show_int (a + b)\<rparr>, k)))"

text \<open>
  The left column takes the base items in order, with the identifiers \<^verbatim>\<open>l-0\<close>,
  \<^verbatim>\<open>l-1\<close>, ...; the right column is \<^verbatim>\<open>shuffleArray\<close> of the items
  \<^verbatim>\<open>{ id: `r-${i}`, content: item.matchId, matchId: item.content }\<close>.
\<close>

definition left_of_base :: "BaseItem list \<Rightarrow> MatchItem list" where
  "left_of_base baseItems =
     map (\<lambda>(i, item). \<lparr>content = content item, matchId = matchId item,
                          item_id = ''l-'' @ show_nat i\<rparr>) (enumerate 0 baseItems)"

definition right_of_base :: "BaseItem list \<Rightarrow> MatchItem list" where
  "right_of_base baseItems =
     map (\<lambda>(i, item). \<lparr>content = matchId item, matchId = content item,
                          item_id = ''r-'' @ show_nat i\<rparr>) (enumerate 0 baseItems)"

definition generateItems :: "rng \<Rightarrow> nat \<Rightarrow> NoiPhepTinh_state \<times> nat" where
  "generateItems rnd i =
     (case array_from (base_item rnd) 0 5 i of (baseItems, j) \<Rightarrow>
        (case shuffleArray rnd j (right_of_base baseItems) of (newRightItems, k) \<Rightarrow>
           (\<lparr>npt_leftItems = left_of_base baseItems, npt_rightItems = newRightItems,
             npt_selectedLeft = None, npt_connections = Map.empty\<rparr>, k)))"

text \<open>
  This component never compares a pair. Its sibling with a check button (the matching
  game of the single-file build) draws a connection as correct when
  \<^verbatim>\<open>leftItem.matchId === rightItem.content\<close>; that is the match condition here.
\<close>

definition pair_matches :: "MatchItem \<Rightarrow> MatchItem \<Rightarrow> bool" where
  "pair_matches l r = (matchId l = content r)"

text \<open>
  \<^verbatim>\<open>handleLeftClick\<close> selects; \<^verbatim>\<open>handleRightClick\<close> records the connection for the
  selected left item, whatever the pair, and clears the selection.
\<close>

definition npt_handleLeftClick :: "MatchItem \<Rightarrow> NoiPhepTinh_state \<Rightarrow> NoiPhepTinh_state" where
  "npt_handleLeftClick item s = s\<lparr>npt_selectedLeft := Some item\<rparr>"

definition npt_handleRightClick :: "MatchItem \<Rightarrow> NoiPhepTinh_state \<Rightarrow> NoiPhepTinh_state" where
  "npt_handleRightClick item s =
     (case npt_selectedLeft s of
        None \<Rightarrow> s
      | Some selectedLeft \<Rightarrow>
          s\<lparr>npt_connections := (npt_connections s)(item_id selectedLeft \<mapsto> item_id item),
            npt_selectedLeft := None\<rparr>)"

section \<open>NoiBong: matching an outline with its filled picture\<close>

text \<open>
  \<^verbatim>\<open>interface MatchItem { id: string; iconId: string; }\<close>, and the keys of the object
  literal \<^verbatim>\<open>ICONS\<close> of this component.
\<close>

record IconItem =
  icon_item_id :: string
  iconId :: string

record NoiBong_state =
  nb_leftItems :: "IconItem list"
  nb_rightItems :: "IconItem list"
  nb_selectedLeft :: "IconItem option"
  nb_connections :: "string \<rightharpoonup> string"

definition nb_iconKeys :: "string list" where
  "nb_iconKeys = [''leaf'', ''acorn'', ''pumpkin'', ''mushroom'', ''house'']"

text \<open>
  \<^verbatim>\<open>chosenIcons = shuffleArray(iconKeys).slice(0, 5)\<close>; the left column is
  \<^verbatim>\<open>chosenIcons\<close> with the identifiers \<^verbatim>\<open>l-i\<close>, the right column is
  \<^verbatim>\<open>shuffleArray(chosenIcons)\<close> with the identifiers \<^verbatim>\<open>r-i\<close>.
\<close>

definition icon_items :: "string \<Rightarrow> string list \<Rightarrow> IconItem list" where
  "icon_items side icons =
     map (\<lambda>(i, iconId). \<lparr>icon_item_id = side @ show_nat i, iconId = iconId\<rparr>) (enumerate 0 icons)"

definition nb_generateItems :: "rng \<Rightarrow> nat \<Rightarrow> NoiBong_state \<times> nat" where
  "nb_generateItems rnd i =
     (case shuffleArray rnd i nb_iconKeys of (shuffled, j) \<Rightarrow>
        (case shuffleArray rnd j (take 5 shuffled) of (shuffledAgain, k) \<Rightarrow>
           (\<lparr>nb_leftItems = icon_items ''l-'' (take 5 shuffled),
             nb_rightItems = icon_items ''r-'' shuffledAgain,
             nb_selectedLeft = None, nb_connections = Map.empty\<rparr>, k)))"

text \<open>
  \<^verbatim>\<open>handleRightClick\<close> of this component records the connection only when
  \<^verbatim>\<open>selectedLeft.iconId === item.iconId\<close>, and clears the selection either way.
\<close>

definition icon_matches :: "IconItem \<Rightarrow> IconItem \<Rightarrow> bool" where
  "icon_matches l r = (iconId l = iconId r)"

definition nb_handleLeftClick :: "IconItem \<Rightarrow> NoiBong_state \<Rightarrow> NoiBong_state" where
  "nb_handleLeftClick item s = s\<lparr>nb_selectedLeft := Some item\<rparr>"

definition nb_handleRightClick :: "IconItem \<Rightarrow> NoiBong_state \<Rightarrow> NoiBong_state" where
  "nb_handleRightClick item s =
     (case nb_selectedLeft s of
        None \<Rightarrow> s
      | Some selectedLeft \<Rightarrow>
          (let s' = (if iconId selectedLeft = iconId item
                     then s\<lparr>nb_connections :=
                            (nb_connections s)(icon_item_id selectedLeft \<mapsto> icon_item_id item)\<rparr>
                     else s)
           in s'\<lparr>nb_selectedLeft := None\<rparr>))"

text \<open>A sample state of the component, with the acorn outline selected.\<close>

definition nb_sample :: NoiBong_state where
  "nb_sample =
     \<lparr>nb_leftItems = icon_items ''l-'' nb_iconKeys,
      nb_rightItems = icon_items ''r-'' (rev nb_iconKeys),
      nb_selectedLeft = Some \<lparr>icon_item_id = ''l-1'', iconId = ''acorn''\<rparr>,
      nb_connections = Map.empty\<rparr>"

section \<open>MeCungToanHoc: the arithmetic maze\<close>

text \<open>
  \<^verbatim>\<open>interface MazeNode { id; value; isInput; pos: { x; y } }\<close> and
  \<^verbatim>\<open>interface MazeConnection { from: MazeNode; to: MazeNode; op: string }\<close>.
  A position is the pair of its \<^verbatim>\<open>x\<close> and \<^verbatim>\<open>y\<close>.
\<close>

record MazeNode =
  node_id :: nat
  node_value :: int
  isInput :: bool
  pos :: "int \<times> int"

record MazeConnection =
  from_node :: MazeNode
  to_node :: MazeNode
  conn_op :: string

record Maze_state =
  mz_nodes :: "MazeNode list"
  mz_connections :: "MazeConnection list"
  mz_userAnswers :: "nat \<rightharpoonup> string"

definition simpleMazeLayout :: "(int \<times> int) list" where
  "simpleMazeLayout =
     [(170, 20), (320, 20),
      (320, 120), (170, 220),
      (170, 320), (170, 420),
      (320, 420), (320, 520),
      (170, 620), (320, 620)]"

definition complexMazeLayout :: "(int \<times> int) list" where
  "complexMazeLayout =
     [(20, 20), (170, 20), (170, 120),
      (20, 220), (20, 320), (20, 420),
      (170, 420), (170, 520), (20, 620),
      (170, 620), (320, 620), (320, 520),
      (320, 420), (470, 420), (320, 320),
      (320, 220), (470, 120), (470, 20),
      (620, 20), (620, 120), (620, 220),
      (620, 320), (620, 420), (620, 520),
      (470, 620), (620, 620)]"

text \<open>
  The loop \<^verbatim>\<open>for (let i = 1; i < structure.length; i++)\<close> of \<^verbatim>\<open>generateMaze\<close>. Each
  round draws \<^verbatim>\<open>add = Math.random() > 0.5\<close> and \<^verbatim>\<open>amount = getRandomInt(1, 9)\<close>,
  writes the operation \<^verbatim>\<open>`${add ? '+' : '-'}${amount}`\<close>, moves the running value
  (\<^verbatim>\<open>Math.max(0, currentValue - amount)\<close> for a subtraction), and pushes the new node
  and the connection from the previous node.
\<close>

function maze_loop ::
  "rng \<Rightarrow> (int \<times> int) list \<Rightarrow> nat \<Rightarrow> int \<Rightarrow> MazeNode \<Rightarrow> MazeNode list \<Rightarrow> MazeConnection list
     \<Rightarrow> nat \<Rightarrow> MazeNode list \<times> MazeConnection list \<times> nat" where
  "maze_loop rnd structure i currentValue prevNode newNodes newConnections k =
     (if i < length structure then
        (let isEndNode = (i = length structure - 1);
             add = (rnd k > 1 / 2)
         in case getRandomInt rnd (k + 1) 1 9 of (amount, k') \<Rightarrow>
           (let opr = (if add then ''+'' else ''-'') @ show_int amount;
                currentValue' = (if add then currentValue + amount
                                 else max 0 (currentValue - amount));
                currentNode = \<lparr>node_id = i, node_value = currentValue',
                                isInput = \<not> isEndNode, pos = structure ! i\<rparr>
            in maze_loop rnd structure (i + 1) currentValue' currentNode
                 (newNodes @ [currentNode])
                 (newConnections @ [\<lparr>from_node = prevNode, to_node = currentNode, conn_op = opr\<rparr>])
                 k'))
      else (newNodes, newConnections, k))"
  by pat_completeness auto
termination
  by (relation "measure (\<lambda>(rnd, structure, i, rest). length structure - i)")
     (auto simp: getRandomInt_def)

declare maze_loop.simps [simp del]

definition generateMaze :: "rng \<Rightarrow> nat \<Rightarrow> Maze_state \<times> nat" where
  "generateMaze rnd k =
     (let structure = (if rnd k > 1 / 2 then complexMazeLayout else simpleMazeLayout)
      in case getRandomInt rnd (k + 1) 5 15 of (currentValue, k1) \<Rightarrow>
        (let prevNode = \<lparr>node_id = 0, node_value = currentValue, isInput = False,
                         pos = structure ! 0\<rparr>
         in case maze_loop rnd structure 1 currentValue prevNode [prevNode] [] k1 of
              (newNodes, newConnections, k2) \<Rightarrow>
                (\<lparr>mz_nodes = newNodes, mz_connections = newConnections,
                  mz_userAnswers = Map.empty\<rparr>, k2)))"

text \<open>
  The replay that the specification describes: an operation is a sign, \<^verbatim>\<open>+\<close> or
  \<^verbatim>\<open>-\<close>, followed by one digit from 1 to 9; adding moves the running total up,
  subtracting moves it down and stops at 0. Any other text is not an operation. The
  replay of a list of operations from a start value lists the start value and every
  running total after it.
\<close>

definition digit_value :: "char \<Rightarrow> int option" where
  "digit_value c =
     map_of [(CHR ''0'', 0), (CHR ''1'', 1), (CHR ''2'', 2), (CHR ''3'', 3), (CHR ''4'', 4),
             (CHR ''5'', 5), (CHR ''6'', 6), (CHR ''7'', 7), (CHR ''8'', 8), (CHR ''9'', 9)] c"

definition is_step_op :: "string \<Rightarrow> bool" where
  "is_step_op opr =
     (case opr of
        [s, d] \<Rightarrow> (s = CHR ''+'' \<or> s = CHR ''-'') \<and> d \<in> set ''123456789''
      | _ \<Rightarrow> False)"

definition replay_op :: "string \<Rightarrow> int \<Rightarrow> int option" where
  "replay_op opr v =
     (case opr of
        [s, d] \<Rightarrow>
          (case digit_value d of
             None \<Rightarrow> None
           | Some k \<Rightarrow>
               if 1 \<le> k \<and> k \<le> 9 then
                 (if s = CHR ''+'' then Some (v + k)
                  else if s = CHR ''-'' then Some (max 0 (v - k))
                  else None)
               else None)
      | _ \<Rightarrow> None)"

fun replay :: "int \<Rightarrow> string list \<Rightarrow> int list option" where
  "replay v [] = Some [v]"
| "replay v (opr # oprs) =
     (case replay_op opr v of
        None \<Rightarrow> None
      | Some v' \<Rightarrow> (case replay v' oprs of None \<Rightarrow> None | Some vs \<Rightarrow> Some (v # vs)))"

text \<open>
  The invariant of the loop, used in the proofs: the nodes pushed so far are one more
  than the connections, the replay of the operations pushed so far from the first node's
  value gives the values of the nodes pushed so far, no value is negative, and the
  \<open>m\<close>-th connection leads from the \<open>m\<close>-th node to the next one.
\<close>

definition maze_ok :: "MazeNode list \<Rightarrow> MazeConnection list \<Rightarrow> bool" where
  "maze_ok nodes conns =
     (nodes \<noteq> [] \<and> length nodes = length conns + 1
      \<and> replay (node_value (hd nodes)) (map conn_op conns) = Some (map node_value nodes)
      \<and> list_all (\<lambda>n. 0 \<le> node_value n) nodes
      \<and> list_all (\<lambda>m. from_node (conns ! m) = nodes ! m \<and> to_node (conns ! m) = nodes ! (m + 1))
           [0..<length conns])"

section \<open>Strings and thrown values of the AI-assisted variants\<close>

text \<open>
  \<^verbatim>\<open>s.includes(pat)\<close>, \<^verbatim>\<open>s.toUpperCase()\<close> and \<^verbatim>\<open>s.trim()\<close>. A character of the
  model is one byte; upper case is taken on the letters a to z and white space is the
  ASCII white space. The Vietnamese texts of the components are written without their
  diacritics and the emoji by their names; none of these texts contains \<^verbatim>\<open>429\<close> or,
  in capitals, \<^verbatim>\<open>RESOURCE_EXHAUSTED\<close>, in either spelling.
\<close>

fun includes_str :: "string \<Rightarrow> string \<Rightarrow> bool" where
  "includes_str [] pat = (pat = [])"
| "includes_str (c # cs) pat = (take (length pat) (c # cs) = pat \<or> includes_str cs pat)"

definition upper_char :: "char \<Rightarrow> char" where
  "upper_char c =
     (case map_of (zip ''abcdefghijklmnopqrstuvwxyz'' ''ABCDEFGHIJKLMNOPQRSTUVWXYZ'') c of
        Some u \<Rightarrow> u | None \<Rightarrow> c)"

definition toUpperCase :: "string \<Rightarrow> string" where
  "toUpperCase s = map upper_char s"

definition is_space :: "char \<Rightarrow> bool" where
  "is_space c = (c \<in> set [CHR '' '', CHR 0x09, CHR 0x0A, CHR 0x0B, CHR 0x0C, CHR 0x0D])"

definition trim :: "string \<Rightarrow> string" where
  "trim s = rev (dropWhile is_space (rev (dropWhile is_space s)))"

text \<open>
  What a \<^verbatim>\<open>catch (e)\<close> receives: an \<^verbatim>\<open>Error\<close> object with its message, or any other
  thrown value (\<^verbatim>\<open>e instanceof Error\<close> is false). The request to the generative service
  and \<^verbatim>\<open>JSON.parse\<close> are outside the program: their joint outcome is an input of the
  model, either a thrown value (\<open>Inl\<close>: the request was rejected, for instance with a
  rate-limit error, the response had no text, or the text was not JSON) or the parsed
  data (\<open>Inr\<close>). The parsed data of each game is typed as far as the game's checks
  look at it: a field the checks find missing or of the wrong kind is \<open>None\<close>.
\<close>

datatype thrown = ErrorObj string | NonError

text \<open>
  The test of the handlers,
  \<^verbatim>\<open>msg.includes("429") || msg.toUpperCase().includes("RESOURCE_EXHAUSTED")\<close>.
\<close>

definition is_rate_limit :: "string \<Rightarrow> bool" where
  "is_rate_limit msg =
     (includes_str msg ''429'' \<or> includes_str (toUpperCase msg) ''RESOURCE_EXHAUSTED'')"

text \<open>
  The message of the \<^verbatim>\<open>TypeError\<close> that reading a property of \<^verbatim>\<open>undefined\<close>
  throws; its wording is the engine's.
\<close>

definition msg_type_error :: string where
  "msg_type_error = ''Cannot read properties of undefined''"

section \<open>NoiSo: matching pictures with their counts (AI-assisted)\<close>

text \<open>
  \<^verbatim>\<open>interface RightItem { id: string; count: number; }\<close> and
  \<^verbatim>\<open>interface LeftItem { id: string; svg: string; count: number; }\<close>: a left item is a
  right item with a picture. A pair of the response or of the default data is
  \<^verbatim>\<open>{ svg, count }\<close>. The Vietnamese texts of the component are written here without
  their diacritics.
\<close>

record RightItem =
  ns_id :: string
  item_count :: int

record LeftItem = RightItem +
  svg :: string

record CountPair =
  pair_svg :: string
  pair_count :: int

record NoiSo_state =
  ns_theme :: string
  ns_isLoading :: bool
  ns_error :: "string option"
  ns_leftItems :: "LeftItem list"
  ns_rightItems :: "RightItem list"
  ns_selectedLeft :: "LeftItem option"
  ns_connections :: "string \<rightharpoonup> string"

definition defaultGameData :: "CountPair list" where
  \<open>defaultGameData =
     [\<lparr>pair_svg = ''<svg viewBox="0 0 100 100"><circle cx="50" cy="50" r="15" fill="#e74c3c"/></svg>'',
       pair_count = 1\<rparr>,
      \<lparr>pair_svg = ''<svg viewBox="0 0 100 100"><rect x="20" y="35" width="30" height="30" fill="#3498db"/><rect x="55" y="35" width="30" height="30" fill="#3498db"/></svg>'',
       pair_count = 2\<rparr>,
      \<lparr>pair_svg = ''<svg viewBox="0 0 100 100"><polygon points="50,15 85,50 50,85 15,50" fill="#f1c40f"/><polygon points="15,15 45,15 45,45 15,45" fill="#f1c40f"/><polygon points="55,55 85,55 85,85 55,85" fill="#f1c40f"/></svg>'',
       pair_count = 3\<rparr>,
      \<lparr>pair_svg = ''<svg viewBox="0 0 100 100"><path d="M50 20 L60 40 L80 40 L65 55 L70 75 L50 65 L30 75 L35 55 L20 40 L40 40 Z" fill="#2ecc71"/><path d="M20 70 L30 90 L10 90 Z" fill="#2ecc71"/><path d="M80 70 L90 90 L70 90 Z" fill="#2ecc71"/><path d="M50 80 L60 95 L40 95 Z" fill="#2ecc71"/></svg>'',
       pair_count = 4\<rparr>,
      \<lparr>pair_svg = ''<svg viewBox="0 0 100 100"><circle cx="25" cy="25" r="10" fill="#9b59b6"/><circle cx="75" cy="25" r="10" fill="#9b59b6"/><circle cx="50" cy="50" r="10" fill="#9b59b6"/><circle cx="25" cy="75" r="10" fill="#9b59b6"/><circle cx="75" cy="75" r="10" fill="#9b59b6"/></svg>'',
       pair_count = 5\<rparr>]\<close>

definition left_of_pairs :: "CountPair list \<Rightarrow> LeftItem list" where
  "left_of_pairs pairs =
     map (\<lambda>(i, item). \<lparr>ns_id = ''l-'' @ show_nat i, item_count = pair_count item,
                          svg = pair_svg item\<rparr>) (enumerate 0 pairs)"

definition right_of_pairs :: "CountPair list \<Rightarrow> RightItem list" where
  "right_of_pairs pairs =
     map (\<lambda>(i, item). \<lparr>ns_id = ''r-'' @ show_nat i, item_count = pair_count item\<rparr>)
       (enumerate 0 pairs)"

text \<open>
  \<^verbatim>\<open>loadDefaultData\<close>: the default pairs are shuffled, the left column takes them in
  that order, the right column is shuffled once more; the connections, the selection and
  the error are reset.
\<close>

definition loadDefaultData :: "rng \<Rightarrow> nat \<Rightarrow> NoiSo_state \<Rightarrow> NoiSo_state \<times> nat" where
  "loadDefaultData rnd i s =
     (case shuffleArray rnd i defaultGameData of (baseItems, j) \<Rightarrow>
        (case shuffleArray rnd j (right_of_pairs baseItems) of (newRightItems, k) \<Rightarrow>
           (s\<lparr>ns_leftItems := left_of_pairs baseItems, ns_rightItems := newRightItems,
              ns_connections := Map.empty, ns_selectedLeft := None, ns_error := None\<rparr>, k)))"

text \<open>
  The parsed response as \<^verbatim>\<open>generateNew\<close> looks at it: not an array, or an array of
  pairs. The messages of the component follow.
\<close>

datatype noiso_data = NotAnArray | PairArray "CountPair list"

definition ns_msg_theme :: string where
  "ns_msg_theme = ''Vui long nhap chu de.''"

definition ns_msg_invalid :: string where
  "ns_msg_invalid = ''Du lieu tu AI khong hop le.''"

definition ns_msg_unknown :: string where
  "ns_msg_unknown = ''Loi khong xac dinh. Dang tai du lieu mac dinh.''"

definition ns_msg_rate_limit :: string where
  "ns_msg_rate_limit = ''Luot truy cap API da het. Dang tai du lieu mac dinh.''"

text \<open>
  The body of the \<^verbatim>\<open>try\<close> block: the request and the parse, the check
  \<^verbatim>\<open>!Array.isArray(data) || data.length < 5\<close>, then the new columns.
\<close>

definition ns_try :: "rng \<Rightarrow> nat \<Rightarrow> thrown + noiso_data \<Rightarrow> NoiSo_state \<Rightarrow> thrown + NoiSo_state \<times> nat" where
  "ns_try rnd i remote s =
     (case remote of
        Inl e \<Rightarrow> Inl e
      | Inr NotAnArray \<Rightarrow> Inl (ErrorObj ns_msg_invalid)
      | Inr (PairArray pairs) \<Rightarrow>
          if length pairs < 5 then Inl (ErrorObj ns_msg_invalid)
          else (case shuffleArray rnd i (right_of_pairs pairs) of (newRightItems, j) \<Rightarrow>
                  Inr (s\<lparr>ns_leftItems := left_of_pairs pairs, ns_rightItems := newRightItems,
                         ns_connections := Map.empty, ns_selectedLeft := None\<rparr>, j)))"

text \<open>
  The \<^verbatim>\<open>catch\<close> block: it chooses the message, sets it with \<^verbatim>\<open>setError\<close> and then
  calls \<^verbatim>\<open>loadDefaultData\<close>.
\<close>

definition ns_errorMessage :: "thrown \<Rightarrow> string" where
  "ns_errorMessage e =
     (case e of
        ErrorObj message \<Rightarrow> if is_rate_limit message then ns_msg_rate_limit else ns_msg_unknown
      | NonError \<Rightarrow> ns_msg_unknown)"

definition ns_catch :: "rng \<Rightarrow> nat \<Rightarrow> thrown \<Rightarrow> NoiSo_state \<Rightarrow> NoiSo_state \<times> nat" where
  "ns_catch rnd i e s = loadDefaultData rnd i (s\<lparr>ns_error := Some (ns_errorMessage e)\<rparr>)"

text \<open>
  \<^verbatim>\<open>generateNew\<close>: loading on, error off; an empty theme stops here with a message and
  no request; otherwise the \<^verbatim>\<open>try\<close> block, the \<^verbatim>\<open>catch\<close> block when it threw, and
  in either case the \<^verbatim>\<open>finally\<close> block, which turns loading off. Nothing in the
  \<^verbatim>\<open>catch\<close> and \<^verbatim>\<open>finally\<close> blocks can throw, so the call always completes with a
  state.
\<close>

definition ns_generateNew :: "rng \<Rightarrow> nat \<Rightarrow> thrown + noiso_data \<Rightarrow> NoiSo_state \<Rightarrow> NoiSo_state \<times> nat" where
  "ns_generateNew rnd i remote s =
     (let s1 = s\<lparr>ns_isLoading := True, ns_error := None\<rparr>
      in if trim (ns_theme s1) = [] then
           (s1\<lparr>ns_error := Some ns_msg_theme, ns_isLoading := False\<rparr>, i)
         else
           (case (case ns_try rnd i remote s1 of
                    Inr done \<Rightarrow> done
                  | Inl e \<Rightarrow> ns_catch rnd i e s1) of
              (s2, j) \<Rightarrow> (s2\<lparr>ns_isLoading := False\<rparr>, j)))"

text \<open>\<^verbatim>\<open>handleLeftClick\<close> and \<^verbatim>\<open>handleRightClick\<close> of this component.\<close>

definition ns_handleLeftClick :: "LeftItem \<Rightarrow> NoiSo_state \<Rightarrow> NoiSo_state" where
  "ns_handleLeftClick item s = s\<lparr>ns_selectedLeft := Some item\<rparr>"

definition ns_handleRightClick :: "RightItem \<Rightarrow> NoiSo_state \<Rightarrow> NoiSo_state" where
  "ns_handleRightClick item s =
     (case ns_selectedLeft s of
        None \<Rightarrow> s
      | Some selectedLeft \<Rightarrow>
          (let s' = (if item_count selectedLeft = item_count item
                     then s\<lparr>ns_connections :=
                            (ns_connections s)(ns_id selectedLeft \<mapsto> ns_id item)\<rparr>
                     else s)
           in s'\<lparr>ns_selectedLeft := None\<rparr>))"

text \<open>
  A sample state of the component: the default pairs in their written order, the picture
  of two squares selected, nothing connected.
\<close>

definition ns_sample :: NoiSo_state where
  "ns_sample =
     \<lparr>ns_theme = ''don gian'', ns_isLoading = False, ns_error = None,
      ns_leftItems = left_of_pairs defaultGameData,
      ns_rightItems = right_of_pairs defaultGameData,
      ns_selectedLeft = Some (left_of_pairs defaultGameData ! 1),
      ns_connections = Map.empty\<rparr>"

text \<open>The state of the component when it mounts.\<close>

definition ns_initial :: NoiSo_state where
  "ns_initial =
     \<lparr>ns_theme = ''don gian'', ns_isLoading = True, ns_error = None, ns_leftItems = [],
      ns_rightItems = [], ns_selectedLeft = None, ns_connections = Map.empty\<rparr>"

section \<open>TimHinhDung: the missing cell of a pattern (AI-assisted)\<close>

text \<open>
  \<^verbatim>\<open>interface PuzzleData { grid; options; correctOptionIndex; missingIndex }\<close>. The
  puzzle of the state spreads the parsed data, whose \<^verbatim>\<open>correctOptionIndex\<close> nothing
  checks (\<open>None\<close> when the response has none). The selection is
  \<^verbatim>\<open>{ index, isCorrect } | null\<close>.
\<close>

record PuzzleData =
  grid :: "string list"
  options :: "string list"
  correctOptionIndex :: "int option"
  missingIndex :: int

record PuzzleResponse =
  resp_grid :: "string list option"
  resp_options :: "string list option"
  resp_correctOptionIndex :: "int option"

record TimHinh_state =
  th_puzzle :: "PuzzleData option"
  th_isLoading :: bool
  th_error :: "string option"
  th_selection :: "(int \<times> bool) option"

text \<open>\<^verbatim>\<open>xs.indexOf(x)\<close>: the first position of \<open>x\<close>, or \<open>-1\<close>.\<close>

fun indexOf :: "'a list \<Rightarrow> 'a \<Rightarrow> int" where
  "indexOf [] x = - 1"
| "indexOf (y # ys) x =
     (if y = x then 0 else (let r = indexOf ys x in if r = - 1 then - 1 else r + 1))"

text \<open>\<^verbatim>\<open>defaultPuzzles[0]\<close>, the only default puzzle.\<close>

definition defaultPuzzle_grid :: "string list" where
  \<open>defaultPuzzle_grid =
     [''<svg viewBox="0 0 100 100"><rect x="25" y="25" width="50" height="50" fill="red"/></svg>'',
      ''<svg viewBox="0 0 100 100"><circle cx="50" cy="50" r="25" fill="red"/></svg>'',
      ''<svg viewBox="0 0 100 100"><polygon points="50,15 85,85 15,85" fill="red"/></svg>'',
      ''<svg viewBox="0 0 100 100"><rect x="25" y="25" width="50" height="50" fill="blue"/></svg>'',
      ''MISSING'',
      ''<svg viewBox="0 0 100 100"><polygon points="50,15 85,85 15,85" fill="blue"/></svg>'',
      ''<svg viewBox="0 0 100 100"><rect x="25" y="25" width="50" height="50" fill="green"/></svg>'',
      ''<svg viewBox="0 0 100 100"><circle cx="50" cy="50" r="25" fill="green"/></svg>'',
      ''<svg viewBox="0 0 100 100"><polygon points="50,15 85,85 15,85" fill="green"/></svg>'']\<close>

definition defaultPuzzle_options :: "string list" where
  \<open>defaultPuzzle_options =
     [''<svg viewBox="0 0 100 100"><circle cx="50" cy="50" r="25" fill="red"/></svg>'',
      ''<svg viewBox="0 0 100 100"><circle cx="50" cy="50" r="25" fill="blue"/></svg>'',
      ''<svg viewBox="0 0 100 100"><rect x="25" y="25" width="50" height="50" fill="blue"/></svg>'',
      ''<svg viewBox="0 0 100 100"><polygon points="50,15 85,85 15,85" fill="green"/></svg>'',
      ''<svg viewBox="0 0 100 100"><circle cx="50" cy="50" r="25" fill="green"/></svg>'']\<close>

definition defaultPuzzle_correctOptionIndex :: int where
  "defaultPuzzle_correctOptionIndex = 1"

text \<open>
  \<^verbatim>\<open>loadDefaultPuzzle\<close>: the default puzzle with
  \<^verbatim>\<open>missingIndex = defaultPuzzle.grid.indexOf("MISSING")\<close>, and \<^verbatim>\<open>setError(null)\<close>.
\<close>

definition loadDefaultPuzzle :: "TimHinh_state \<Rightarrow> TimHinh_state" where
  "loadDefaultPuzzle s =
     s\<lparr>th_puzzle := Some \<lparr>grid = defaultPuzzle_grid, options = defaultPuzzle_options,
                           correctOptionIndex = Some defaultPuzzle_correctOptionIndex,
                           missingIndex = indexOf defaultPuzzle_grid ''MISSING''\<rparr>,
       th_error := None\<rparr>"

definition th_msg_invalid :: string where
  "th_msg_invalid = ''Invalid data structure from AI.''"

definition th_msg_default :: string where
  "th_msg_default = ''Da xay ra loi khi tao cau do. Dang tai cau do mac dinh.''"

definition th_msg_rate_limit :: string where
  "th_msg_rate_limit = ''Luot truy cap API da het. Dang tai cau do mac dinh.''"

text \<open>
  The \<^verbatim>\<open>try\<close> block: \<^verbatim>\<open>data.grid.indexOf("MISSING")\<close> throws a \<^verbatim>\<open>TypeError\<close>
  when there is no grid; the check is
  \<^verbatim>\<open>missingIndex === -1 || data.options.length !== 5\<close>, whose second half is read
  only when the first is false.
\<close>

definition th_try :: "thrown + PuzzleResponse \<Rightarrow> TimHinh_state \<Rightarrow> thrown + TimHinh_state" where
  "th_try remote s =
     (case remote of
        Inl e \<Rightarrow> Inl e
      | Inr data \<Rightarrow>
          (case resp_grid data of
             None \<Rightarrow> Inl (ErrorObj msg_type_error)
           | Some g \<Rightarrow>
               (let mi = indexOf g ''MISSING'' in
                if mi = - 1 then Inl (ErrorObj th_msg_invalid)
                else (case resp_options data of
                        None \<Rightarrow> Inl (ErrorObj msg_type_error)
                      | Some os \<Rightarrow>
                          if length os \<noteq> 5 then Inl (ErrorObj th_msg_invalid)
                          else Inr (s\<lparr>th_puzzle :=
                                        Some \<lparr>grid = g, options = os,
                                              correctOptionIndex = resp_correctOptionIndex data,
                                              missingIndex = mi\<rparr>\<rparr>)))))"

definition th_errorMessage :: "thrown \<Rightarrow> string" where
  "th_errorMessage e =
     (case e of
        ErrorObj message \<Rightarrow> if is_rate_limit message then th_msg_rate_limit else th_msg_default
      | NonError \<Rightarrow> th_msg_default)"

definition th_catch :: "thrown \<Rightarrow> TimHinh_state \<Rightarrow> TimHinh_state" where
  "th_catch e s = loadDefaultPuzzle (s\<lparr>th_error := Some (th_errorMessage e)\<rparr>)"

definition th_generateNew :: "thrown + PuzzleResponse \<Rightarrow> TimHinh_state \<Rightarrow> TimHinh_state" where
  "th_generateNew remote s =
     (let s1 = s\<lparr>th_isLoading := True, th_error := None, th_selection := None,
                  th_puzzle := None\<rparr>;
          s2 = (case th_try remote s1 of Inr done \<Rightarrow> done | Inl e \<Rightarrow> th_catch e s1)
      in s2\<lparr>th_isLoading := False\<rparr>)"

text \<open>The state of the component when it mounts.\<close>

definition th_initial :: TimHinh_state where
  "th_initial = \<lparr>th_puzzle = None, th_isLoading = True, th_error = None, th_selection = None\<rparr>"

section \<open>MaHoaPhepTinh with emoji (AI-assisted)\<close>

text \<open>
  \<^verbatim>\<open>interface LegendItem { icon; value }\<close>,
  \<^verbatim>\<open>interface SymbolProblem { id; operand1; operand2; operator; result }\<close> and
  \<^verbatim>\<open>interface GameData { iconMap; problems: Omit<SymbolProblem, 'id'>[] }\<close>. The emoji
  of the default data are written by their names.
\<close>

record LegendItem =
  icon :: string
  icon_value :: int

















section \<open>ToTracNghiem: copying a dot pattern (AI-assisted)\<close>












section \<open>Sample failures of the remote generation\<close>




definition no_missing_response :: PuzzleResponse where
  "no_missing_response =
     \<lparr>resp_grid = Some (take 4 defaultPuzzle_grid @ drop 5 defaultPuzzle_grid),
      resp_options = Some defaultPuzzle_options, resp_correctOptionIndex = Some 1\<rparr>"

section \<open>The worksheet export\<close>























section \<open>Properties of the utilities\<close>

lemma getRandomInt_range:
  assumes "in_unit rnd" and "lo \<le> hi"
  shows "lo \<le> fst (getRandomInt rnd i lo hi) \<and> fst (getRandomInt rnd i lo hi) \<le> hi"
proof -
  from assms(1) have r: "0 \<le> rnd i" "rnd i < 1" by (auto simp: in_unit_def)
  let ?n = "hi - lo + 1"
  have n: "0 < (of_int ?n :: real)" using assms(2) by simp
  have "0 \<le> rnd i * of_int ?n" using r n by simp
  then have lo: "0 \<le> \<lfloor>rnd i * of_int ?n\<rfloor>" by simp
  have "rnd i * of_int ?n < 1 * of_int ?n" using r n by (intro mult_strict_right_mono) auto
  then have "rnd i * of_int ?n < of_int ?n" by simp
  then have hi: "\<lfloor>rnd i * of_int ?n\<rfloor> < ?n" by (simp only: floor_less_iff)
  from lo hi show ?thesis by (simp add: getRandomInt_def)
qed

lemma mset_sort_insert: "mset (fst (sort_insert rnd i x ys)) = add_mset x (mset ys)"
proof (induction ys arbitrary: i)
  case Nil
  show ?case by simp
next
  case (Cons y ys)
  obtain zs j where r: "sort_insert rnd (i + 1) x ys = (zs, j)"
    by (cases "sort_insert rnd (i + 1) x ys")
  have "mset zs = add_mset x (mset ys)" using Cons [of "i + 1"] r by simp
  with r show ?case by simp
qed

lemma mset_sort_random: "mset (fst (sort_random rnd i done xs)) = mset done + mset xs"
proof (induction xs arbitrary: i "done")
  case Nil
  show ?case by simp
next
  case (Cons x xs)
  obtain d j where ins: "sort_insert rnd i x done = (d, j)" by (cases "sort_insert rnd i x done")
  have "mset d = add_mset x (mset done)" using mset_sort_insert [of rnd i x "done"] ins by simp
  with Cons [of j d] ins show ?case by simp
qed

lemma mset_shuffleArray: "mset (fst (shuffleArray rnd i xs)) = mset xs"
  by (simp add: shuffleArray_def mset_sort_random)

lemma length_shuffleArray: "length (fst (shuffleArray rnd i xs)) = length xs"
  using mset_shuffleArray [of rnd i xs] by (metis size_mset)

lemma set_shuffleArray: "set (fst (shuffleArray rnd i xs)) = set xs"
  using mset_shuffleArray [of rnd i xs] by (metis set_mset_mset)

lemma distinct_shuffleArray: "distinct (fst (shuffleArray rnd i xs)) = distinct xs"
  using mset_shuffleArray [of rnd i xs] by (metis mset_eq_imp_distinct_iff)

text \<open>
  C10. For every input array and every sequence of draws, \<open>shuffleArray\<close> returns an
  array with exactly the elements of its input, each as often as in the input, and the
  input array is not changed: in the store, the result is a new array, every array that
  existed before the call (the argument among them) holds what it held, and the new
  array holds a permutation of the argument, the one the value-level function computes.
\<close>

theorem shuffleArray_permutation_no_mutation:
  assumes "a < length h"
  shows "mset (fst (shuffleArray rnd i (h ! a))) = mset (h ! a)
    \<and> (case shuffleArray_store rnd i h a of (p, h', j) \<Rightarrow>
         p = length h \<and> p \<noteq> a \<and> length h' = length h + 1
         \<and> take (length h) h' = h
         \<and> h' ! a = h ! a
         \<and> h' ! p = fst (shuffleArray rnd i (h ! a))
         \<and> j = snd (shuffleArray rnd i (h ! a))
         \<and> mset (h' ! p) = mset (h ! a))"
proof -
  obtain ys j where s: "sort_random rnd i [] (h ! a) = (ys, j)"
    by (cases "sort_random rnd i [] (h ! a)")
  have m: "mset ys = mset (h ! a)" using mset_sort_random [of rnd i "[]" "h ! a"] s by simp
  have st: "shuffleArray_store rnd i h a = (length h, (h @ [h ! a])[length h := ys], j)"
    by (simp add: shuffleArray_store_def spread_copy_def sort_in_place_def s)
  have v: "shuffleArray rnd i (h ! a) = (ys, j)" by (simp add: shuffleArray_def s)
  show ?thesis using assms m by (simp add: st v nth_append)
qed

theorem shuffleArray_permutation_no_mutation_witness:
  "(0::nat) < length [[3, 1, 2 :: int]]
   \<and> fst (shuffleArray draws_alt 0 [3, 1, 2 :: int]) = [1, 2, 3]
   \<and> mset [1, 2, 3 :: int] = mset [3, 1, 2]
   \<and> shuffleArray_store draws_alt 0 [[3, 1, 2 :: int]] 0 = (1, [[3, 1, 2], [1, 2, 3]], 3)"
  using shuffleArray_permutation_no_mutation [of 0 "[[3, 1, 2 :: int]]" draws_alt 0]
  by (simp add: shuffleArray_def shuffleArray_store_def spread_copy_def sort_in_place_def
      draws_alt_def)

lemma in_unit_draws_alt: "in_unit draws_alt"
  by (simp add: in_unit_def draws_alt_def)

lemma in_unit_draws_half: "in_unit draws_half"
  by (simp add: in_unit_def draws_half_def)

lemma in_unit_draws_cycle: "in_unit draws_cycle"
  by (simp add: in_unit_def draws_cycle_def)

section \<open>Properties of the sums worksheet\<close>

lemma array_from_unfold:
  "array_from f idx n i =
     (if n = 0 then ([], i)
      else (case f idx i of (x, j) \<Rightarrow>
              (case array_from f (idx + 1) (n - 1) j of (xs, k) \<Rightarrow> (x # xs, k))))"
  by (cases n) simp_all

lemma length_array_from: "length (fst (array_from f idx n i)) = n"
proof (induction n arbitrary: idx i)
  case 0
  show ?case by simp
next
  case (Suc n)
  obtain x j where f: "f idx i = (x, j)" by (cases "f idx i")
  obtain xs k where r: "array_from f (idx + 1) n j = (xs, k)"
    by (cases "array_from f (idx + 1) n j")
  from Suc [of "idx + 1" j] r have "length xs = n" by simp
  with f r show ?case by simp
qed

lemma nth_array_from:
  "m < n \<Longrightarrow> \<exists>j. fst (array_from f idx n i) ! m = fst (f (idx + m) j)"
proof (induction n arbitrary: idx i m)
  case 0
  then show ?case by simp
next
  case (Suc n)
  obtain x j where f: "f idx i = (x, j)" by (cases "f idx i")
  obtain xs k where r: "array_from f (idx + 1) n j = (xs, k)"
    by (cases "array_from f (idx + 1) n j")
  show ?case
  proof (cases m)
    case 0
    have "fst (array_from f idx (Suc n) i) ! 0 = fst (f (idx + 0) i)" using f r by simp
    with 0 show ?thesis by blast
  next
    case (Suc m')
    with Suc.prems have "m' < n" by simp
    from Suc.IH [OF this, of "idx + 1" j] r obtain j' where "xs ! m' = fst (f (idx + 1 + m') j')"
      by auto
    then have "fst (array_from f idx (Suc n) i) ! m = fst (f (idx + m) j')"
      using f r Suc by simp
    then show ?thesis by blast
  qed
qed

lemma set_array_from:
  assumes "x \<in> set (fst (array_from f idx n i))"
  shows "\<exists>m j. m < n \<and> x = fst (f (idx + m) j)"
proof -
  from assms obtain m where m: "m < length (fst (array_from f idx n i))"
    and x: "fst (array_from f idx n i) ! m = x" by (auto simp: in_set_conv_nth)
  from m have "m < n" by (simp add: length_array_from)
  with nth_array_from [OF this, of f idx i] x show ?thesis by metis
qed

lemma foldl_plus_sum_list: "foldl (\<lambda>sum num. sum + num) a xs = a + sum_list (xs :: int list)"
  by (induction xs arbitrary: a) simp_all

lemma sum_problem_sound:
  assumes "in_unit rnd"
  shows "sum_id (fst (sum_problem rnd idx i)) = idx
    \<and> (length (numbers (fst (sum_problem rnd idx i))) = 2
       \<or> length (numbers (fst (sum_problem rnd idx i))) = 3)
    \<and> (\<forall>x \<in> set (numbers (fst (sum_problem rnd idx i))). 0 \<le> x \<and> x \<le> 9)
    \<and> answer (fst (sum_problem rnd idx i)) = sum_list (numbers (fst (sum_problem rnd idx i)))"
proof -
  obtain c j where c: "getRandomInt rnd i 2 3 = (c, j)" by (cases "getRandomInt rnd i 2 3")
  obtain ns k where ns: "array_from (\<lambda>_ k. getRandomInt rnd k 0 9) 0 (nat c) j = (ns, k)"
    by (cases "array_from (\<lambda>_ k. getRandomInt rnd k 0 9) 0 (nat c) j")
  have p: "fst (sum_problem rnd idx i)
      = \<lparr>sum_id = idx, numbers = ns, answer = foldl (\<lambda>sum num. sum + num) 0 ns\<rparr>"
    by (simp add: sum_problem_def c ns)
  from getRandomInt_range [OF assms, of 2 3 i] c have "2 \<le> c" "c \<le> 3" by simp_all
  then have "nat c = 2 \<or> nat c = 3" by linarith
  moreover have "length ns = nat c"
    using length_array_from [of "\<lambda>_ k. getRandomInt rnd k 0 9" 0 "nat c" j] ns by simp
  ultimately have len: "length ns = 2 \<or> length ns = 3" by simp
  have rng: "\<forall>x \<in> set ns. 0 \<le> x \<and> x \<le> 9"
  proof
    fix x assume "x \<in> set ns"
    then have "x \<in> set (fst (array_from (\<lambda>_ k. getRandomInt rnd k 0 9) 0 (nat c) j))"
      using ns by simp
    from set_array_from [OF this] obtain j' where "x = fst (getRandomInt rnd j' 0 9)" by auto
    with getRandomInt_range [OF assms, of 0 9 j'] show "0 \<le> x \<and> x \<le> 9" by simp
  qed
  show ?thesis using len rng by (simp add: p foldl_plus_sum_list)
qed

text \<open>
  C2. Whatever \<^verbatim>\<open>Math.random()\<close> draws from the half-open unit interval, the
  arithmetic generator produces exactly 6 problems (numbered 0 to 5);
  every problem has 2 or 3 operands, each operand lies between 0 and 9, and the stored
  answer is the sum of the operands. The generator also empties the user's answers.
\<close>

theorem generateProblems_six_sums:
  assumes "in_unit rnd"
  shows "length (cs_problems (fst (generateProblems rnd i))) = 6
    \<and> map sum_id (cs_problems (fst (generateProblems rnd i))) = [0, 1, 2, 3, 4, 5]
    \<and> (\<forall>p \<in> set (cs_problems (fst (generateProblems rnd i))).
          (length (numbers p) = 2 \<or> length (numbers p) = 3)
          \<and> (\<forall>x \<in> set (numbers p). 0 \<le> x \<and> x \<le> 9)
          \<and> answer p = sum_list (numbers p))
    \<and> cs_userAnswers (fst (generateProblems rnd i)) = Map.empty"
proof -
  obtain ps j where ps: "array_from (sum_problem rnd) 0 6 i = (ps, j)"
    by (cases "array_from (sum_problem rnd) 0 6 i")
  have g: "fst (generateProblems rnd i) = \<lparr>cs_problems = ps, cs_userAnswers = Map.empty\<rparr>"
    by (simp add: generateProblems_def ps)
  have len: "length ps = 6" using length_array_from [of "sum_problem rnd" 0 6 i] ps by simp
  have nth: "sum_id (ps ! m) = m" if "m < 6" for m
  proof -
    from nth_array_from [OF that, of "sum_problem rnd" 0 i] ps
    obtain j' where "ps ! m = fst (sum_problem rnd m j')" by auto
    with sum_problem_sound [OF assms, of m j'] show ?thesis by simp
  qed
  have ids: "map sum_id ps = [0, 1, 2, 3, 4, 5]"
  proof (rule nth_equalityI)
    show "length (map sum_id ps) = length [0, 1, 2, 3, 4, 5 :: nat]" using len by simp
  next
    fix m assume "m < length (map sum_id ps)"
    then have m: "m < 6" using len by simp
    then have "m = 0 \<or> m = 1 \<or> m = 2 \<or> m = 3 \<or> m = 4 \<or> m = 5" by linarith
    then have "[0, 1, 2, 3, 4, 5 :: nat] ! m = m" by auto
    with nth [OF m] m len show "map sum_id ps ! m = [0, 1, 2, 3, 4, 5] ! m" by simp
  qed
  have each: "\<forall>p \<in> set ps. (length (numbers p) = 2 \<or> length (numbers p) = 3)
          \<and> (\<forall>x \<in> set (numbers p). 0 \<le> x \<and> x \<le> 9) \<and> answer p = sum_list (numbers p)"
  proof
    fix p assume "p \<in> set ps"
    then have "p \<in> set (fst (array_from (sum_problem rnd) 0 6 i))" using ps by simp
    from set_array_from [OF this] obtain m j' where "p = fst (sum_problem rnd (0 + m) j')"
      by auto
    with sum_problem_sound [OF assms, of "0 + m" j']
    show "(length (numbers p) = 2 \<or> length (numbers p) = 3)
          \<and> (\<forall>x \<in> set (numbers p). 0 \<le> x \<and> x \<le> 9) \<and> answer p = sum_list (numbers p)"
      by simp
  qed
  show ?thesis using len ids each by (simp add: g)
qed

theorem generateProblems_six_sums_witness:
  "in_unit draws_cycle
   \<and> length (cs_problems (fst (generateProblems draws_cycle 0))) = 6
   \<and> map numbers (cs_problems (fst (generateProblems draws_cycle 0)))
       = [[1, 2], [4, 5], [7, 8, 9], [1, 2], [4, 5], [7, 8, 9]]
   \<and> map answer (cs_problems (fst (generateProblems draws_cycle 0))) = [3, 9, 24, 3, 9, 24]"
  using generateProblems_six_sums [OF in_unit_draws_cycle, of 0] in_unit_draws_cycle
  by (simp add: generateProblems_def sum_problem_def array_from_unfold getRandomInt_def
      draws_cycle_def)

section \<open>Properties of the legend\<close>

lemma fold_legend_other:
  "key \<notin> set keys \<Longrightarrow>
   fold (\<lambda>(index, key) lg. lg(key \<mapsto> f index)) (enumerate n keys) m key = m key"
  by (induction keys arbitrary: n m) (simp_all del: fun_upd_apply, simp)

lemma fold_legend_nth:
  "distinct keys \<Longrightarrow> j < length keys \<Longrightarrow>
   fold (\<lambda>(index, key) lg. lg(key \<mapsto> f index)) (enumerate n keys) m (keys ! j) = Some (f (n + j))"
proof (induction keys arbitrary: n m j)
  case Nil
  then show ?case by simp
next
  case (Cons k ks)
  show ?case
  proof (cases j)
    case 0
    from Cons.prems have "k \<notin> set ks" by simp
    from fold_legend_other [OF this, of f "Suc n" "m(k \<mapsto> f n)"] 0 show ?thesis
      by (simp del: fun_upd_apply, simp)
  next
    case (Suc j')
    with Cons.prems have "distinct ks" "j' < length ks" by simp_all
    from Cons.IH [OF this, of "Suc n" "m(k \<mapsto> f n)"] Suc show ?thesis
      by (simp del: fun_upd_apply)
  qed
qed

lemma fold_legend_dom:
  "dom (fold (\<lambda>(index, key) lg. lg(key \<mapsto> f index)) (enumerate n keys) m) = dom m \<union> set keys"
  by (induction keys arbitrary: n m) auto

lemma fill_legend_positional:
  assumes "distinct keys" and "length nums = length keys"
  shows "map (fill_legend keys nums) keys = map (\<lambda>n. Some (Num n)) nums"
proof (rule nth_equalityI)
  show "length (map (fill_legend keys nums) keys) = length (map (\<lambda>n. Some (Num n)) nums)"
    using assms by simp
next
  fix j assume "j < length (map (fill_legend keys nums) keys)"
  then have j: "j < length keys" by simp
  have "fill_legend keys nums (keys ! j) = Some (num_at nums (int (0 + j)))"
    unfolding fill_legend_def
    using fold_legend_nth [OF assms(1) j, of "\<lambda>index. num_at nums (int index)" 0 Map.empty]
    by simp
  also have "\<dots> = Some (Num (nums ! j))" using j assms(2) by (simp add: num_at_def js_nth_def)
  finally show "map (fill_legend keys nums) keys ! j = map (\<lambda>n. Some (Num n)) nums ! j"
    using j assms(2) by simp
qed

lemma distinct_iconKeys: "distinct iconKeys \<and> length iconKeys = 9"
  by (simp add: iconKeys_def)

lemma one_to_nine: "set (map (\<lambda>i. int i + 1) [0..<9]) = {1..9}"
proof -
  have "[0..<9] = [0, 1, 2, 3, 4, 5, 6, 7, 8 :: nat]" by (simp add: upt_rec)
  then have "set (map (\<lambda>i. int i + 1) [0..<9]) = {1, 2, 3, 4, 5, 6, 7, 8, 9 :: int}" by simp
  also have "\<dots> = {1..9}" by auto
  finally show ?thesis .
qed

lemma distinct_one_to_nine: "distinct (map (\<lambda>i. int i + 1) [0..<9]) \<and> length (map (\<lambda>i. int i + 1) [0..<9]) = 9"
  by (simp add: distinct_map inj_on_def)

text \<open>
  C4. Every legend that the local symbol game generates gives each of the 9 fixed icons
  one number, position by position from the shuffled numbers 1 to 9; the 9 icons are
  pairwise different, the legend has no other key, and the legend is a bijection from
  the icons onto the numbers 1 to 9.
\<close>

theorem generateGame_legend_bijection:
  "distinct iconKeys \<and> length iconKeys = 9
   \<and> dom (mh_legend (fst (generateGame rnd i))) = set iconKeys
   \<and> map (mh_legend (fst (generateGame rnd i))) iconKeys
       = map (\<lambda>n. Some (Num n)) (fst (shuffleArray rnd i (map (\<lambda>i. int i + 1) [0..<9])))
   \<and> mset (fst (shuffleArray rnd i (map (\<lambda>i. int i + 1) [0..<9])))
       = mset [1, 2, 3, 4, 5, 6, 7, 8, 9]
   \<and> bij_betw (mh_legend (fst (generateGame rnd i))) (set iconKeys)
       ((\<lambda>n. Some (Num n)) ` {1..9})"
proof -
  let ?base = "map (\<lambda>i. int i + 1) [0..<9]"
  obtain nums j where sh: "shuffleArray rnd i ?base = (nums, j)"
    by (cases "shuffleArray rnd i ?base")
  obtain ps k where ps: "array_from (symbol_problem rnd (fill_legend iconKeys nums)) 0 12 j = (ps, k)"
    by (cases "array_from (symbol_problem rnd (fill_legend iconKeys nums)) 0 12 j")
  have lg: "mh_legend (fst (generateGame rnd i)) = fill_legend iconKeys nums"
    by (simp add: generateGame_def sh ps)
  have len: "length nums = 9"
    using length_shuffleArray [of rnd i ?base] sh by simp
  have dis: "distinct nums"
    using distinct_shuffleArray [of rnd i ?base] sh distinct_one_to_nine by simp
  have st: "set nums = {1..9}"
    using set_shuffleArray [of rnd i ?base] sh one_to_nine by simp
  have ms: "mset nums = mset [1, 2, 3, 4, 5, 6, 7, 8, 9]"
  proof -
    have "?base = [1, 2, 3, 4, 5, 6, 7, 8, 9]" by (simp add: upt_rec)
    with mset_shuffleArray [of rnd i ?base] sh show ?thesis by simp
  qed
  have pos: "map (fill_legend iconKeys nums) iconKeys = map (\<lambda>n. Some (Num n)) nums"
    using fill_legend_positional [of iconKeys nums] distinct_iconKeys len by simp
  have dm: "dom (fill_legend iconKeys nums) = set iconKeys"
    unfolding fill_legend_def
    using fold_legend_dom [of "\<lambda>index. num_at nums (int index)" 0 iconKeys Map.empty] by simp
  have "distinct (map (\<lambda>n. Some (Num n)) nums)" using dis by (simp add: distinct_map inj_on_def)
  then have "distinct (map (fill_legend iconKeys nums) iconKeys)" using pos by simp
  then have inj: "inj_on (fill_legend iconKeys nums) (set iconKeys)" by (simp add: distinct_map)
  have "fill_legend iconKeys nums ` set iconKeys = set (map (fill_legend iconKeys nums) iconKeys)"
    by simp
  also have "\<dots> = (\<lambda>n. Some (Num n)) ` set nums" using pos by simp
  finally have img: "fill_legend iconKeys nums ` set iconKeys = (\<lambda>n. Some (Num n)) ` {1..9}"
    using st by simp
  have bij: "bij_betw (fill_legend iconKeys nums) (set iconKeys) ((\<lambda>n. Some (Num n)) ` {1..9})"
    using inj img by (simp add: bij_betw_def)
  show ?thesis using distinct_iconKeys dm pos ms bij by (simp add: lg sh)
qed

theorem generateGame_legend_bijection_witness:
  "map (mh_legend (fst (generateGame draws_cycle 0))) iconKeys
     = [Some (Num 9), Some (Num 8), Some (Num 6), Some (Num 5), Some (Num 4),
        Some (Num 3), Some (Num 2), Some (Num 7), Some (Num 1)]"
  using generateGame_legend_bijection [of draws_cycle 0]
  by (simp add: shuffleArray_def draws_cycle_def upt_rec)

section \<open>Properties of the pairing generators\<close>

lemma map_enumerate_index: "map (\<lambda>(i, x). f i) (enumerate n xs) = map f [n..<n + length xs]"
proof (induction xs arbitrary: n)
  case Nil
  show ?case by simp
next
  case (Cons x xs)
  have "n < n + length (x # xs)" by simp
  then have "[n..<n + length (x # xs)] = n # [Suc n..<n + length (x # xs)]"
    by (rule upt_conv_Cons)
  then have "[n..<n + length (x # xs)] = n # [Suc n..<Suc n + length xs]" by simp
  with Cons [of "Suc n"] show ?case by simp
qed

lemma map_enumerate_value: "map (\<lambda>(i, x). g x) (enumerate n xs) = map g xs"
  by (induction xs arbitrary: n) simp_all

lemma show_nat_digit: "n < 10 \<Longrightarrow> show_nat n = [digit_char n]"
  by (simp add: show_nat.simps)

lemma five_indices: "[0..<5] = [0, 1, 2, 3, 4 :: nat]"
  by (simp add: upt_rec)

lemma labels_five:
  "map (\<lambda>i. side @ show_nat i) [0..<5]
     = [side @ ''0'', side @ ''1'', side @ ''2'', side @ ''3'', side @ ''4'']"
  by (simp add: five_indices show_nat_digit digit_char_def)

lemma count_matching:
  "length (filter (\<lambda>r. key = f r) rs) = count (mset (map f rs)) key"
  by (induction rs) simp_all

lemma left_of_base_fields:
  "map item_id (left_of_base bs) = map (\<lambda>i. ''l-'' @ show_nat i) [0..<0 + length bs]
   \<and> map matchId (left_of_base bs) = map matchId bs
   \<and> map content (left_of_base bs) = map content bs"
proof -
  have a: "map item_id (left_of_base bs)
      = map (\<lambda>(i, item). ''l-'' @ show_nat i) (enumerate 0 bs)"
    by (simp add: left_of_base_def case_prod_unfold comp_def)
  have b: "map matchId (left_of_base bs) = map (\<lambda>(i, item). matchId item) (enumerate 0 bs)"
    by (simp add: left_of_base_def case_prod_unfold comp_def)
  have c: "map content (left_of_base bs) = map (\<lambda>(i, item). content item) (enumerate 0 bs)"
    by (simp add: left_of_base_def case_prod_unfold comp_def)
  show ?thesis
    unfolding a b c
    by (simp only: map_enumerate_index map_enumerate_value)
qed

lemma right_of_base_fields:
  "map item_id (right_of_base bs) = map (\<lambda>i. ''r-'' @ show_nat i) [0..<0 + length bs]
   \<and> map content (right_of_base bs) = map matchId bs
   \<and> map matchId (right_of_base bs) = map content bs"
proof -
  have a: "map item_id (right_of_base bs)
      = map (\<lambda>(i, item). ''r-'' @ show_nat i) (enumerate 0 bs)"
    by (simp add: right_of_base_def case_prod_unfold comp_def)
  have b: "map content (right_of_base bs) = map (\<lambda>(i, item). matchId item) (enumerate 0 bs)"
    by (simp add: right_of_base_def case_prod_unfold comp_def)
  have c: "map matchId (right_of_base bs) = map (\<lambda>(i, item). content item) (enumerate 0 bs)"
    by (simp add: right_of_base_def case_prod_unfold comp_def)
  show ?thesis
    unfolding a b c
    by (simp only: map_enumerate_index map_enumerate_value)
qed

lemma icon_items_fields:
  "map icon_item_id (icon_items side icons) = map (\<lambda>i. side @ show_nat i) [0..<0 + length icons]
   \<and> map iconId (icon_items side icons) = icons"
proof -
  have a: "map icon_item_id (icon_items side icons)
      = map (\<lambda>(i, icon). side @ show_nat i) (enumerate 0 icons)"
    by (simp add: icon_items_def case_prod_unfold comp_def)
  have b: "map iconId (icon_items side icons) = map (\<lambda>(i, icon). icon) (enumerate 0 icons)"
    by (simp add: icon_items_def case_prod_unfold comp_def)
  show ?thesis
    unfolding a b
    by (simp only: map_enumerate_index map_enumerate_value) simp
qed

lemma count_at_least_one: "x \<in> set xs \<Longrightarrow> 1 \<le> count (mset xs) x"
  by (metis count_greater_eq_one_iff set_mset_mset)

lemma count_exactly_one: "distinct xs \<Longrightarrow> x \<in> set xs \<Longrightarrow> count (mset xs) x = 1"
  by (simp add: distinct_count_atmost_1)

lemma npt_generateItems_columns:
  "\<exists>bs. length bs = 5
     \<and> npt_leftItems (fst (generateItems rnd i)) = left_of_base bs
     \<and> mset (npt_rightItems (fst (generateItems rnd i))) = mset (right_of_base bs)"
proof -
  obtain bs j where bs: "array_from (base_item rnd) 0 5 i = (bs, j)"
    by (cases "array_from (base_item rnd) 0 5 i")
  obtain rs k where rs: "shuffleArray rnd j (right_of_base bs) = (rs, k)"
    by (cases "shuffleArray rnd j (right_of_base bs)")
  have "length bs = 5" using length_array_from [of "base_item rnd" 0 5 i] bs by simp
  moreover have "npt_leftItems (fst (generateItems rnd i)) = left_of_base bs"
    by (simp add: generateItems_def bs rs)
  moreover have "mset (npt_rightItems (fst (generateItems rnd i))) = mset (right_of_base bs)"
    using mset_shuffleArray [of rnd j "right_of_base bs"] by (simp add: generateItems_def bs rs)
  ultimately show ?thesis by blast
qed

lemma nb_generateItems_columns:
  "\<exists>chosen shuffledAgain. mset chosen = mset nb_iconKeys \<and> mset shuffledAgain = mset chosen
     \<and> nb_leftItems (fst (nb_generateItems rnd i)) = icon_items ''l-'' chosen
     \<and> nb_rightItems (fst (nb_generateItems rnd i)) = icon_items ''r-'' shuffledAgain"
proof -
  obtain sh j where sh: "shuffleArray rnd i nb_iconKeys = (sh, j)"
    by (cases "shuffleArray rnd i nb_iconKeys")
  obtain rs k where rs: "shuffleArray rnd j (take 5 sh) = (rs, k)"
    by (cases "shuffleArray rnd j (take 5 sh)")
  have "length sh = 5" using length_shuffleArray [of rnd i nb_iconKeys] sh
    by (simp add: nb_iconKeys_def)
  then have "take 5 sh = sh" by simp
  then have "mset (take 5 sh) = mset nb_iconKeys"
    using mset_shuffleArray [of rnd i nb_iconKeys] sh by simp
  moreover have "mset rs = mset (take 5 sh)"
    using mset_shuffleArray [of rnd j "take 5 sh"] rs by simp
  moreover have "nb_leftItems (fst (nb_generateItems rnd i)) = icon_items ''l-'' (take 5 sh)"
    by (simp add: nb_generateItems_def sh rs)
  moreover have "nb_rightItems (fst (nb_generateItems rnd i)) = icon_items ''r-'' rs"
    by (simp add: nb_generateItems_def sh rs)
  ultimately show ?thesis by blast
qed

text \<open>
  C1, as the code has it. In every instance of the sums pairing (NoiPhepTinh) the left
  column has the 5 identifiers \<^verbatim>\<open>l-0\<close> to \<^verbatim>\<open>l-4\<close>, the right column has the
  identifiers \<^verbatim>\<open>r-0\<close> to \<^verbatim>\<open>r-4\<close> in some order and its contents are a permutation of
  the answers of the left items, and every left item is matched by at least one right
  item; it is matched by exactly one when the 5 answers are pairwise different, which the
  generator does not enforce. In every instance of the picture pairing (NoiBong) the
  5 icons are pairwise different, so there each left item is matched by exactly one right
  item.
\<close>

theorem pairing_columns_amended:
  "map item_id (npt_leftItems (fst (generateItems rnd i)))
       = [''l-0'', ''l-1'', ''l-2'', ''l-3'', ''l-4'']
   \<and> distinct (map item_id (npt_leftItems (fst (generateItems rnd i))))
   \<and> mset (map item_id (npt_rightItems (fst (generateItems rnd i))))
       = mset [''r-0'', ''r-1'', ''r-2'', ''r-3'', ''r-4'']
   \<and> mset (map content (npt_rightItems (fst (generateItems rnd i))))
       = mset (map matchId (npt_leftItems (fst (generateItems rnd i))))
   \<and> (\<forall>l \<in> set (npt_leftItems (fst (generateItems rnd i))).
         1 \<le> length (filter (pair_matches l) (npt_rightItems (fst (generateItems rnd i)))))
   \<and> (distinct (map matchId (npt_leftItems (fst (generateItems rnd i)))) \<longrightarrow>
        (\<forall>l \<in> set (npt_leftItems (fst (generateItems rnd i))).
           length (filter (pair_matches l) (npt_rightItems (fst (generateItems rnd i)))) = 1))
   \<and> map icon_item_id (nb_leftItems (fst (nb_generateItems rnd i)))
       = [''l-0'', ''l-1'', ''l-2'', ''l-3'', ''l-4'']
   \<and> map icon_item_id (nb_rightItems (fst (nb_generateItems rnd i)))
       = [''r-0'', ''r-1'', ''r-2'', ''r-3'', ''r-4'']
   \<and> mset (map iconId (nb_rightItems (fst (nb_generateItems rnd i))))
       = mset (map iconId (nb_leftItems (fst (nb_generateItems rnd i))))
   \<and> (\<forall>l \<in> set (nb_leftItems (fst (nb_generateItems rnd i))).
         length (filter (icon_matches l) (nb_rightItems (fst (nb_generateItems rnd i)))) = 1)"
proof -
  let ?L = "npt_leftItems (fst (generateItems rnd i))"
  let ?R = "npt_rightItems (fst (generateItems rnd i))"
  from npt_generateItems_columns [of rnd i] obtain bs where len: "length bs = 5"
    and L: "?L = left_of_base bs" and R: "mset ?R = mset (right_of_base bs)" by blast
  have ids: "map item_id ?L = [''l-0'', ''l-1'', ''l-2'', ''l-3'', ''l-4'']"
    using left_of_base_fields [of bs] labels_five [of "''l-''"] len by (simp add: L)
  have dis: "distinct (map item_id ?L)" by (simp add: ids)
  have r1: "map item_id (right_of_base bs) = [''r-0'', ''r-1'', ''r-2'', ''r-3'', ''r-4'']"
    using right_of_base_fields [of bs] labels_five [of "''r-''"] len by simp
  have "mset (map item_id ?R) = mset (map item_id (right_of_base bs))"
    using R by (metis mset_map)
  then have rids: "mset (map item_id ?R) = mset [''r-0'', ''r-1'', ''r-2'', ''r-3'', ''r-4'']"
    by (simp only: r1)
  have r2: "map content (right_of_base bs) = map matchId ?L"
    using right_of_base_fields [of bs] left_of_base_fields [of bs] by (simp add: L)
  have "mset (map content ?R) = mset (map content (right_of_base bs))"
    using R by (metis mset_map)
  then have perm: "mset (map content ?R) = mset (map matchId ?L)"
    by (simp only: r2)
  have cnt: "length (filter (pair_matches l) ?R) = count (mset (map matchId ?L)) (matchId l)" for l
  proof -
    have "pair_matches l = (\<lambda>r. matchId l = content r)"
      by (simp add: fun_eq_iff pair_matches_def)
    then have "length (filter (pair_matches l) ?R)
        = length (filter (\<lambda>r. matchId l = content r) ?R)"
      by simp
    also have "\<dots> = count (mset (map content ?R)) (matchId l)" by (rule count_matching)
    finally show ?thesis by (simp only: perm)
  qed
  have some: "\<forall>l \<in> set ?L. 1 \<le> length (filter (pair_matches l) ?R)"
  proof
    fix l assume "l \<in> set ?L"
    then have "matchId l \<in> set (map matchId ?L)" by simp
    from count_at_least_one [OF this] show "1 \<le> length (filter (pair_matches l) ?R)"
      by (simp only: cnt)
  qed
  have one: "distinct (map matchId ?L) \<longrightarrow> (\<forall>l \<in> set ?L. length (filter (pair_matches l) ?R) = 1)"
  proof (intro impI ballI)
    fix l assume d: "distinct (map matchId ?L)" and "l \<in> set ?L"
    then have "matchId l \<in> set (map matchId ?L)" by simp
    from count_exactly_one [OF d this] show "length (filter (pair_matches l) ?R) = 1"
      by (simp only: cnt)
  qed
  let ?NL = "nb_leftItems (fst (nb_generateItems rnd i))"
  let ?NR = "nb_rightItems (fst (nb_generateItems rnd i))"
  from nb_generateItems_columns [of rnd i] obtain chosen again
    where ch: "mset chosen = mset nb_iconKeys" and ag: "mset again = mset chosen"
      and NL: "?NL = icon_items ''l-'' chosen" and NR: "?NR = icon_items ''r-'' again" by blast
  have "length nb_iconKeys = 5" "distinct nb_iconKeys" by (simp_all add: nb_iconKeys_def)
  then have clen: "length chosen = 5" and cdis: "distinct chosen"
    using ch by (metis size_mset, metis mset_eq_imp_distinct_iff)
  have alen: "length again = 5" using ag clen by (metis size_mset)
  have nids: "map icon_item_id ?NL = [''l-0'', ''l-1'', ''l-2'', ''l-3'', ''l-4'']"
    using icon_items_fields [of "''l-''" chosen] labels_five [of "''l-''"] clen by (simp add: NL)
  have nrids: "map icon_item_id ?NR = [''r-0'', ''r-1'', ''r-2'', ''r-3'', ''r-4'']"
    using icon_items_fields [of "''r-''" again] labels_five [of "''r-''"] alen by (simp add: NR)
  have nl: "map iconId ?NL = chosen" using icon_items_fields [of "''l-''" chosen] by (simp add: NL)
  have nr: "map iconId ?NR = again" using icon_items_fields [of "''r-''" again] by (simp add: NR)
  have nperm: "mset (map iconId ?NR) = mset (map iconId ?NL)" by (simp only: nl nr ag)
  have none: "\<forall>l \<in> set ?NL. length (filter (icon_matches l) ?NR) = 1"
  proof
    fix l assume "l \<in> set ?NL"
    then have "iconId l \<in> set (map iconId ?NL)" by simp
    then have m: "iconId l \<in> set chosen" by (simp only: nl)
    have "icon_matches l = (\<lambda>r. iconId l = iconId r)"
      by (simp add: fun_eq_iff icon_matches_def)
    then have "length (filter (icon_matches l) ?NR)
        = length (filter (\<lambda>r. iconId l = iconId r) ?NR)"
      by simp
    also have "\<dots> = count (mset (map iconId ?NR)) (iconId l)" by (rule count_matching)
    also have "\<dots> = count (mset chosen) (iconId l)" by (simp only: nr ag)
    also have "\<dots> = 1" using count_exactly_one [OF cdis m] .
    finally show "length (filter (icon_matches l) ?NR) = 1" .
  qed
  from ids dis rids perm some one nids nrids nperm none show ?thesis by blast
qed

lemma npt_half:
  "fst (generateItems draws_half 0) =
    \<lparr>npt_leftItems =
    [\<lparr>content = ''3 + 3'', matchId = ''6'', item_id = ''l-0''\<rparr>,
     \<lparr>content = ''3 + 3'', matchId = ''6'', item_id = ''l-1''\<rparr>,
     \<lparr>content = ''3 + 3'', matchId = ''6'', item_id = ''l-2''\<rparr>,
     \<lparr>content = ''3 + 3'', matchId = ''6'', item_id = ''l-3''\<rparr>,
     \<lparr>content = ''3 + 3'', matchId = ''6'', item_id = ''l-4''\<rparr>],
    npt_rightItems =
      [\<lparr>content = ''6'', matchId = ''3 + 3'', item_id = ''r-0''\<rparr>,
       \<lparr>content = ''6'', matchId = ''3 + 3'', item_id = ''r-1''\<rparr>,
       \<lparr>content = ''6'', matchId = ''3 + 3'', item_id = ''r-2''\<rparr>,
       \<lparr>content = ''6'', matchId = ''3 + 3'', item_id = ''r-3''\<rparr>,
       \<lparr>content = ''6'', matchId = ''3 + 3'', item_id = ''r-4''\<rparr>],
    npt_selectedLeft = None, npt_connections = Map.empty\<rparr>"
  by (simp add: generateItems_def array_from_unfold base_item_def getRandomInt_def draws_half_def
      show_int_def show_nat.simps digit_char_def left_of_base_def right_of_base_def shuffleArray_def)

lemma npt_cycle:
  "fst (generateItems draws_cycle 0) =
   \<lparr>npt_leftItems =
    [\<lparr>content = ''0 + 1'', matchId = ''1'', item_id = ''l-0''\<rparr>,
     \<lparr>content = ''1 + 2'', matchId = ''3'', item_id = ''l-1''\<rparr>,
     \<lparr>content = ''2 + 3'', matchId = ''5'', item_id = ''l-2''\<rparr>,
     \<lparr>content = ''3 + 4'', matchId = ''7'', item_id = ''l-3''\<rparr>,
     \<lparr>content = ''4 + 5'', matchId = ''9'', item_id = ''l-4''\<rparr>],
    npt_rightItems =
      [\<lparr>content = ''9'', matchId = ''4 + 5'', item_id = ''r-4''\<rparr>,
       \<lparr>content = ''7'', matchId = ''3 + 4'', item_id = ''r-3''\<rparr>,
       \<lparr>content = ''5'', matchId = ''2 + 3'', item_id = ''r-2''\<rparr>,
       \<lparr>content = ''3'', matchId = ''1 + 2'', item_id = ''r-1''\<rparr>,
       \<lparr>content = ''1'', matchId = ''0 + 1'', item_id = ''r-0''\<rparr>],
    npt_selectedLeft = None, npt_connections = Map.empty\<rparr>"
  by (simp add: generateItems_def array_from_unfold base_item_def getRandomInt_def draws_cycle_def
      show_int_def show_nat.simps digit_char_def left_of_base_def right_of_base_def shuffleArray_def)

lemma nb_cycle:
  "fst (nb_generateItems draws_cycle 0) =
  \<lparr>nb_leftItems =
    [\<lparr>icon_item_id = ''l-0'', iconId = ''house''\<rparr>,
     \<lparr>icon_item_id = ''l-1'', iconId = ''mushroom''\<rparr>,
     \<lparr>icon_item_id = ''l-2'', iconId = ''pumpkin''\<rparr>,
     \<lparr>icon_item_id = ''l-3'', iconId = ''acorn''\<rparr>,
     \<lparr>icon_item_id = ''l-4'', iconId = ''leaf''\<rparr>],
    nb_rightItems =
      [\<lparr>icon_item_id = ''r-0'', iconId = ''leaf''\<rparr>,
       \<lparr>icon_item_id = ''r-1'', iconId = ''mushroom''\<rparr>,
       \<lparr>icon_item_id = ''r-2'', iconId = ''house''\<rparr>,
       \<lparr>icon_item_id = ''r-3'', iconId = ''pumpkin''\<rparr>,
       \<lparr>icon_item_id = ''r-4'', iconId = ''acorn''\<rparr>],
    nb_selectedLeft = None, nb_connections = Map.empty\<rparr>"
  by (simp add: nb_generateItems_def nb_iconKeys_def draws_cycle_def
      show_nat.simps digit_char_def icon_items_def shuffleArray_def)

theorem pairing_columns_amended_witness:
  "distinct (map matchId (npt_leftItems (fst (generateItems draws_cycle 0))))
   \<and> map matchId (npt_leftItems (fst (generateItems draws_cycle 0))) = [''1'', ''3'', ''5'', ''7'', ''9'']
   \<and> map content (npt_rightItems (fst (generateItems draws_cycle 0))) = [''9'', ''7'', ''5'', ''3'', ''1'']
   \<and> map (\<lambda>l. length (filter (pair_matches l) (npt_rightItems (fst (generateItems draws_cycle 0)))))
         (npt_leftItems (fst (generateItems draws_cycle 0))) = [1, 1, 1, 1, 1]
   \<and> map iconId (nb_leftItems (fst (nb_generateItems draws_cycle 0)))
       = [''house'', ''mushroom'', ''pumpkin'', ''acorn'', ''leaf'']
   \<and> map iconId (nb_rightItems (fst (nb_generateItems draws_cycle 0)))
       = [''leaf'', ''mushroom'', ''house'', ''pumpkin'', ''acorn'']
   \<and> map (\<lambda>l. length (filter (icon_matches l) (nb_rightItems (fst (nb_generateItems draws_cycle 0)))))
         (nb_leftItems (fst (nb_generateItems draws_cycle 0))) = [1, 1, 1, 1, 1]"
  using pairing_columns_amended [of draws_cycle 0]
  by (simp add: npt_cycle nb_cycle pair_matches_def icon_matches_def)

text \<open>
  The claim as it was written fails when two sums coincide: with every draw one half,
  all five base items are \<^verbatim>\<open>3 + 3\<close> with the answer \<^verbatim>\<open>6\<close>, and each left item
  is matched by all five right items.
\<close>

theorem pairing_exactly_one_counterexample:
  "in_unit draws_half
   \<and> map content (npt_leftItems (fst (generateItems draws_half 0)))
       = [''3 + 3'', ''3 + 3'', ''3 + 3'', ''3 + 3'', ''3 + 3'']
   \<and> map content (npt_rightItems (fst (generateItems draws_half 0)))
       = [''6'', ''6'', ''6'', ''6'', ''6'']
   \<and> map (\<lambda>l. length (filter (pair_matches l) (npt_rightItems (fst (generateItems draws_half 0)))))
         (npt_leftItems (fst (generateItems draws_half 0))) = [5, 5, 5, 5, 5]
   \<and> \<not> (\<forall>l \<in> set (npt_leftItems (fst (generateItems draws_half 0))).
           length (filter (pair_matches l) (npt_rightItems (fst (generateItems draws_half 0)))) = 1)"
  using in_unit_draws_half by (simp add: npt_half pair_matches_def)

section \<open>Properties of the maze\<close>

lemma replay_op_generated:
  assumes "1 \<le> a" and "a \<le> 9"
  shows "replay_op (''+'' @ show_int a) v = Some (v + a)"
    and "replay_op (''-'' @ show_int a) v = Some (max 0 (v - a))"
proof -
  from assms have "a = 1 \<or> a = 2 \<or> a = 3 \<or> a = 4 \<or> a = 5 \<or> a = 6 \<or> a = 7 \<or> a = 8 \<or> a = 9"
    by linarith
  then show "replay_op (''+'' @ show_int a) v = Some (v + a)"
    by (elim disjE) (simp_all add: replay_op_def show_int_def show_nat.simps digit_char_def digit_value_def)
  from assms have "a = 1 \<or> a = 2 \<or> a = 3 \<or> a = 4 \<or> a = 5 \<or> a = 6 \<or> a = 7 \<or> a = 8 \<or> a = 9"
    by linarith
  then show "replay_op (''-'' @ show_int a) v = Some (max 0 (v - a))"
    by (elim disjE) (simp_all add: replay_op_def show_int_def show_nat.simps digit_char_def digit_value_def)
qed

lemma replay_nonempty: "replay v oprs = Some vs \<Longrightarrow> vs \<noteq> [] \<and> hd vs = v \<and> length vs = length oprs + 1"
  by (induction oprs arbitrary: v vs) (auto split: option.splits)

lemma replay_snoc:
  "replay v oprs = Some vs \<Longrightarrow> replay_op opr (last vs) = Some v' \<Longrightarrow>
   replay v (oprs @ [opr]) = Some (vs @ [v'])"
proof (induction oprs arbitrary: v vs)
  case Nil
  then show ?case by auto
next
  case (Cons o1 oprs)
  from Cons.prems(1) obtain v1 vs1 where a: "replay_op o1 v = Some v1"
    and b: "replay v1 oprs = Some vs1" and c: "vs = v # vs1"
    by (auto split: option.splits)
  from replay_nonempty [OF b] have "vs1 \<noteq> []" by simp
  with c Cons.prems(2) have "replay_op opr (last vs1) = Some v'" by simp
  from Cons.IH [OF b this] a c show ?case by simp
qed

lemma maze_loop_ok:
  assumes "in_unit rnd"
  shows "maze_ok nodes conns \<Longrightarrow> last nodes = prev \<Longrightarrow>
     node_value prev = cur \<Longrightarrow> length nodes = i \<Longrightarrow> i \<le> length st \<Longrightarrow>
     maze_loop rnd st i cur prev nodes conns k = (ns, cs, k2) \<Longrightarrow>
     maze_ok ns cs \<and> hd ns = hd nodes \<and> length ns = length st"
  using assms
proof (induction rnd st i cur prev nodes conns k rule: maze_loop.induct)
  case (1 rnd st i cur prev nodes conns k)
  show ?case
  proof (cases "i < length st")
    case False
    with "1.prems" show ?thesis by (simp add: maze_loop.simps)
  next
    case True
    obtain amount k' where am: "getRandomInt rnd (k + 1) 1 9 = (amount, k')"
      by (cases "getRandomInt rnd (k + 1) 1 9")
    from getRandomInt_range [OF "1.prems"(7), of 1 9 "k + 1"] am
    have a19: "1 \<le> amount" "amount \<le> 9" by simp_all
    let ?add = "1 / 2 < rnd k"
    let ?opr = "(if ?add then ''+'' else ''-'') @ show_int amount"
    let ?cur = "if ?add then cur + amount else max 0 (cur - amount)"
    let ?node = "\<lparr>node_id = i, node_value = ?cur,
        isInput = \<not> (i = length st - 1), pos = st ! i\<rparr>"
    let ?conn = "\<lparr>from_node = prev, to_node = ?node, conn_op = ?opr\<rparr>"
    have am': "getRandomInt rnd (Suc k) 1 9 = (amount, k')" using am by simp
    have step: "maze_loop rnd st i cur prev nodes conns k
        = maze_loop rnd st (i + 1) ?cur ?node (nodes @ [?node]) (conns @ [?conn]) k'"
      using True by (subst maze_loop.simps) (simp add: am' Let_def)
    from "1.prems"(1) have ne: "nodes \<noteq> []" and len: "length nodes = length conns + 1"
      and rp: "replay (node_value (hd nodes)) (map conn_op conns) = Some (map node_value nodes)"
      and nn: "list_all (\<lambda>n. 0 \<le> node_value n) nodes"
      and ep: "list_all (\<lambda>m. from_node (conns ! m) = nodes ! m \<and> to_node (conns ! m) = nodes ! (m + 1))
           [0..<length conns]"
      by (simp_all add: maze_ok_def)
    have lastv: "last (map node_value nodes) = cur"
      using ne "1.prems"(2,3) by (simp add: last_map)
    have cur0: "0 \<le> cur" using nn ne "1.prems"(2,3) by (metis last_in_set list_all_iff)
    have rop: "replay_op ?opr cur = Some ?cur"
      using replay_op_generated [OF a19, of cur] by simp
    have rp': "replay (node_value (hd (nodes @ [?node]))) (map conn_op (conns @ [?conn]))
        = Some (map node_value (nodes @ [?node]))"
      using replay_snoc [OF rp, of ?opr ?cur] rop lastv ne by simp
    have cur'0: "0 \<le> ?cur" using cur0 a19 by simp
    have nn': "list_all (\<lambda>n. 0 \<le> node_value n) (nodes @ [?node])"
      using nn cur'0 by simp
    have ep': "list_all (\<lambda>m. from_node ((conns @ [?conn]) ! m) = (nodes @ [?node]) ! m
          \<and> to_node ((conns @ [?conn]) ! m) = (nodes @ [?node]) ! (m + 1))
           [0..<length (conns @ [?conn])]"
    proof -
      have each: "from_node ((conns @ [?conn]) ! m) = (nodes @ [?node]) ! m
          \<and> to_node ((conns @ [?conn]) ! m) = (nodes @ [?node]) ! (m + 1)"
        if m: "m < length conns + 1" for m
      proof (cases "m < length conns")
        case True
        with ep have "from_node (conns ! m) = nodes ! m \<and> to_node (conns ! m) = nodes ! (m + 1)"
          by (simp add: list_all_iff)
        with True len show ?thesis by (simp add: nth_append)
      next
        case False
        with m have "m = length conns" by simp
        moreover have "nodes ! length conns = prev"
          using ne len "1.prems"(2) by (simp add: last_conv_nth)
        ultimately show ?thesis using len by (simp add: nth_append)
      qed
      have "\<forall>m \<in> set [0..<length (conns @ [?conn])].
          from_node ((conns @ [?conn]) ! m) = (nodes @ [?node]) ! m
          \<and> to_node ((conns @ [?conn]) ! m) = (nodes @ [?node]) ! (m + 1)"
      proof
        fix m assume "m \<in> set [0..<length (conns @ [?conn])]"
        then have "m < length conns + 1" by auto
        from each [OF this]
        show "from_node ((conns @ [?conn]) ! m) = (nodes @ [?node]) ! m
          \<and> to_node ((conns @ [?conn]) ! m) = (nodes @ [?node]) ! (m + 1)" .
      qed
      then show ?thesis by (simp only: list_all_iff)
    qed
    have ne': "nodes @ [?node] \<noteq> []" by simp
    have len': "length (nodes @ [?node]) = length (conns @ [?conn]) + 1" using len by simp
    have ok': "maze_ok (nodes @ [?node]) (conns @ [?conn])"
      unfolding maze_ok_def using ne' len' rp' nn' ep' by (intro conjI)
    from "1.prems"(6) step
    have res: "maze_loop rnd st (i + 1) ?cur ?node (nodes @ [?node]) (conns @ [?conn]) k' = (ns, cs, k2)"
      by simp
    have l1: "last (nodes @ [?node]) = ?node" by simp
    have l2: "node_value ?node = ?cur" by simp
    have l3: "length (nodes @ [?node]) = i + 1" using "1.prems"(4) by simp
    have l4: "i + 1 \<le> length st" using True by simp
    have "maze_ok ns cs \<and> hd ns = hd (nodes @ [?node]) \<and> length ns = length st"
      by (rule "1.IH" [OF True refl refl am [symmetric] refl refl refl ok' l1 l2 l3 l4 res "1.prems"(7)])
    then show ?thesis using ne by simp
  qed
qed


lemma digit_value_char:
  assumes "digit_value d = Some k" and "1 \<le> k" and "k \<le> 9"
  shows "d \<in> set ''123456789''"
  using assms by (auto simp: digit_value_def split: if_splits)

lemma replay_op_form:
  assumes "replay_op opr v = Some v'"
  shows "is_step_op opr"
proof -
  from assms obtain s d where o: "opr = [s, d]"
    by (auto simp: replay_op_def split: list.splits)
  from assms o obtain k where k: "digit_value d = Some k"
    by (auto simp: replay_op_def split: option.splits)
  from assms o k have r: "1 \<le> k" "k \<le> 9" and sg: "s = CHR ''+'' \<or> s = CHR ''-''"
    by (auto simp: replay_op_def split: if_splits)
  from digit_value_char [OF k r] have "d \<in> set ''123456789''" .
  with o sg show ?thesis by (simp add: is_step_op_def)
qed

lemma replay_ops_form: "replay v oprs = Some vs \<Longrightarrow> list_all is_step_op oprs"
  by (induction oprs arbitrary: v vs) (auto split: option.splits dest: replay_op_form)

lemma length_layouts: "length simpleMazeLayout = 10 \<and> length complexMazeLayout = 26"
  by (simp add: simpleMazeLayout_def complexMazeLayout_def)

text \<open>
  C3. Whatever \<^verbatim>\<open>Math.random()\<close> draws from the half-open unit interval, in the
  maze that \<^verbatim>\<open>generateMaze\<close> produces (10 or 26 nodes) every recorded
  operation is \<^verbatim>\<open>+k\<close> or \<^verbatim>\<open>-k\<close> with \<open>k\<close> from 1 to 9, replaying the recorded
  operations from the first node's value (a subtraction stops at 0) gives exactly the
  recorded node values, no recorded value is negative, and the \<open>m\<close>-th connection
  leads from the \<open>m\<close>-th node to the next one.
\<close>

theorem generateMaze_replay:
  assumes "in_unit rnd"
  shows "mz_nodes (fst (generateMaze rnd k)) \<noteq> []
    \<and> (length (mz_nodes (fst (generateMaze rnd k))) = 10
       \<or> length (mz_nodes (fst (generateMaze rnd k))) = 26)
    \<and> length (mz_nodes (fst (generateMaze rnd k)))
        = length (mz_connections (fst (generateMaze rnd k))) + 1
    \<and> list_all is_step_op (map conn_op (mz_connections (fst (generateMaze rnd k))))
    \<and> replay (node_value (hd (mz_nodes (fst (generateMaze rnd k)))))
          (map conn_op (mz_connections (fst (generateMaze rnd k))))
        = Some (map node_value (mz_nodes (fst (generateMaze rnd k))))
    \<and> (\<forall>n \<in> set (mz_nodes (fst (generateMaze rnd k))). 0 \<le> node_value n)
    \<and> (\<forall>m < length (mz_connections (fst (generateMaze rnd k))).
          from_node (mz_connections (fst (generateMaze rnd k)) ! m)
            = mz_nodes (fst (generateMaze rnd k)) ! m
          \<and> to_node (mz_connections (fst (generateMaze rnd k)) ! m)
            = mz_nodes (fst (generateMaze rnd k)) ! (m + 1))"
proof -
  let ?st = "if rnd k > 1 / 2 then complexMazeLayout else simpleMazeLayout"
  obtain v k1 where v: "getRandomInt rnd (k + 1) 5 15 = (v, k1)"
    by (cases "getRandomInt rnd (k + 1) 5 15")
  let ?first = "\<lparr>node_id = 0, node_value = v, isInput = False, pos = ?st ! 0\<rparr>"
  obtain ns cs k2 where lp: "maze_loop rnd ?st 1 v ?first [?first] [] k1 = (ns, cs, k2)"
    by (cases "maze_loop rnd ?st 1 v ?first [?first] [] k1")
  have v': "getRandomInt rnd (Suc k) 5 15 = (v, k1)" using v by simp
  have g: "fst (generateMaze rnd k) = \<lparr>mz_nodes = ns, mz_connections = cs, mz_userAnswers = Map.empty\<rparr>"
    using lp by (simp add: generateMaze_def Let_def v')
  from getRandomInt_range [OF assms, of 5 15 "k + 1"] v have v0: "5 \<le> v" "v \<le> 15" by simp_all
  have ok0: "maze_ok [?first] []" using v0 by (simp add: maze_ok_def)
  have len: "length ?st = 10 \<or> length ?st = 26" using length_layouts by simp
  then have le: "1 \<le> length ?st" by auto
  have l1: "last [?first] = ?first" by simp
  have l2: "node_value ?first = v" by simp
  have l3: "length [?first] = 1" by simp
  from maze_loop_ok [OF assms ok0 l1 l2 l3 le lp]
  have ok: "maze_ok ns cs" and h: "hd ns = ?first" and ln: "length ns = length ?st" by simp_all
  from ok have a: "ns \<noteq> []" and b: "length ns = length cs + 1"
    and c: "replay (node_value (hd ns)) (map conn_op cs) = Some (map node_value ns)"
    and d: "list_all (\<lambda>n. 0 \<le> node_value n) ns"
    and e: "list_all (\<lambda>m. from_node (cs ! m) = ns ! m \<and> to_node (cs ! m) = ns ! (m + 1))
           [0..<length cs]"
    by (simp_all add: maze_ok_def)
  have f: "list_all is_step_op (map conn_op cs)" using replay_ops_form [OF c] .
  have d': "\<forall>n \<in> set ns. 0 \<le> node_value n" using d by (simp add: list_all_iff)
  have e': "\<forall>m < length cs. from_node (cs ! m) = ns ! m \<and> to_node (cs ! m) = ns ! (m + 1)"
    using e by (simp add: list_all_iff)
  have ln': "length ns = 10 \<or> length ns = 26" using len ln by simp
  show ?thesis unfolding g using a ln' b f c d' e' by simp
qed



lemma maze_cycle:
  "map node_value (mz_nodes (fst (generateMaze draws_cycle 0))) = [6, 3, 0, 7, 16, 15, 12, 7, 14, 23]
   \<and> map conn_op (mz_connections (fst (generateMaze draws_cycle 0)))
       = [''-3'', ''-5'', ''+7'', ''+9'', ''-1'', ''-3'', ''-5'', ''+7'', ''+9'']"
  by (simp add: generateMaze_def maze_loop.simps simpleMazeLayout_def getRandomInt_def
      draws_cycle_def show_int_def show_nat.simps digit_char_def Let_def)

theorem generateMaze_replay_witness:
  "in_unit draws_cycle
   \<and> map node_value (mz_nodes (fst (generateMaze draws_cycle 0)))
       = [6, 3, 0, 7, 16, 15, 12, 7, 14, 23]
   \<and> map conn_op (mz_connections (fst (generateMaze draws_cycle 0)))
       = [''-3'', ''-5'', ''+7'', ''+9'', ''-1'', ''-3'', ''-5'', ''+7'', ''+9'']
   \<and> replay 6 [''-3'', ''-5'', ''+7'', ''+9'', ''-1'', ''-3'', ''-5'', ''+7'', ''+9'']
       = Some [6, 3, 0, 7, 16, 15, 12, 7, 14, 23]"
  using generateMaze_replay [OF in_unit_draws_cycle, of 0] in_unit_draws_cycle maze_cycle
  by (simp add: replay_op_def digit_value_def)

section \<open>Properties of the click handlers\<close>

text \<open>
  C7. In the pairing games that validate on connect (NoiSo, by count; NoiBong, by icon),
  in every state with a selected left item a click on a right item records the
  connection from the selected left item to the clicked right item exactly when their
  match-keys are equal, and otherwise leaves the connections as they were; in either
  case the selection is cleared and nothing else changes: a mismatch sets no error.
\<close>

theorem handleRightClick_validates:
  "(ns_selectedLeft s = Some l \<longrightarrow>
      ns_handleRightClick r s
        = s\<lparr>ns_connections :=
              (if item_count l = item_count r then (ns_connections s)(ns_id l \<mapsto> ns_id r)
               else ns_connections s),
            ns_selectedLeft := None\<rparr>
      \<and> ns_error (ns_handleRightClick r s) = ns_error s
      \<and> (item_count l \<noteq> item_count r \<longrightarrow>
            ns_connections (ns_handleRightClick r s) = ns_connections s))
   \<and> (nb_selectedLeft t = Some a \<longrightarrow>
      nb_handleRightClick b t
        = t\<lparr>nb_connections :=
              (if iconId a = iconId b then (nb_connections t)(icon_item_id a \<mapsto> icon_item_id b)
               else nb_connections t),
            nb_selectedLeft := None\<rparr>
      \<and> (iconId a \<noteq> iconId b \<longrightarrow>
            nb_connections (nb_handleRightClick b t) = nb_connections t))"
  by (simp add: ns_handleRightClick_def nb_handleRightClick_def Let_def)

lemma ns_sample_selected:
  "ns_selectedLeft ns_sample = Some \<lparr>ns_id = ''l-1'', item_count = 2, svg = pair_svg (defaultGameData ! 1)\<rparr>"
  by (simp add: ns_sample_def left_of_pairs_def defaultGameData_def show_nat.simps digit_char_def)

theorem handleRightClick_validates_witness:
  "ns_selectedLeft ns_sample
     = Some \<lparr>ns_id = ''l-1'', item_count = 2, svg = pair_svg (defaultGameData ! 1)\<rparr>
   \<and> ns_connections (ns_handleRightClick \<lparr>ns_id = ''r-1'', item_count = 2\<rparr> ns_sample) ''l-1''
       = Some ''r-1''
   \<and> ns_connections (ns_handleRightClick \<lparr>ns_id = ''r-3'', item_count = 4\<rparr> ns_sample)
       = Map.empty
   \<and> ns_selectedLeft (ns_handleRightClick \<lparr>ns_id = ''r-3'', item_count = 4\<rparr> ns_sample) = None
   \<and> ns_error (ns_handleRightClick \<lparr>ns_id = ''r-3'', item_count = 4\<rparr> ns_sample) = None
   \<and> nb_selectedLeft nb_sample = Some \<lparr>icon_item_id = ''l-1'', iconId = ''acorn''\<rparr>
   \<and> nb_connections (nb_handleRightClick \<lparr>icon_item_id = ''r-3'', iconId = ''acorn''\<rparr> nb_sample) ''l-1''
       = Some ''r-3''
   \<and> nb_connections (nb_handleRightClick \<lparr>icon_item_id = ''r-0'', iconId = ''house''\<rparr> nb_sample)
       = Map.empty
   \<and> nb_selectedLeft (nb_handleRightClick \<lparr>icon_item_id = ''r-0'', iconId = ''house''\<rparr> nb_sample)
       = None"
  using handleRightClick_validates
      [of ns_sample "\<lparr>ns_id = ''l-1'', item_count = 2, svg = pair_svg (defaultGameData ! 1)\<rparr>"
          "\<lparr>ns_id = ''r-3'', item_count = 4\<rparr>"
          nb_sample "\<lparr>icon_item_id = ''l-1'', iconId = ''acorn''\<rparr>"
          "\<lparr>icon_item_id = ''r-0'', iconId = ''house''\<rparr>"]
    handleRightClick_validates
      [of ns_sample "\<lparr>ns_id = ''l-1'', item_count = 2, svg = pair_svg (defaultGameData ! 1)\<rparr>"
          "\<lparr>ns_id = ''r-1'', item_count = 2\<rparr>"
          nb_sample "\<lparr>icon_item_id = ''l-1'', iconId = ''acorn''\<rparr>"
          "\<lparr>icon_item_id = ''r-3'', iconId = ''acorn''\<rparr>"]
    ns_sample_selected
  by (simp add: nb_sample_def) (simp add: ns_sample_def)

section \<open>Properties of the remote generation and its fallback\<close>

lemma pairs_of_left: "map (\<lambda>l. \<lparr>pair_svg = svg l, pair_count = item_count l\<rparr>) (left_of_pairs ps) = ps"
proof -
  have "map (\<lambda>l. \<lparr>pair_svg = svg l, pair_count = item_count l\<rparr>) (left_of_pairs ps)
      = map (\<lambda>(i, item). \<lparr>pair_svg = pair_svg item, pair_count = pair_count item\<rparr>)
          (enumerate 0 ps)"
    by (simp add: left_of_pairs_def case_prod_unfold comp_def)
  also have "\<dots> = map (\<lambda>item. \<lparr>pair_svg = pair_svg item, pair_count = pair_count item\<rparr>) ps"
    by (rule map_enumerate_value)
  also have "\<dots> = ps" by (induction ps) simp_all
  finally show ?thesis .
qed

lemma counts_of_right: "map item_count (right_of_pairs ps) = map pair_count ps"
proof -
  have "map item_count (right_of_pairs ps) = map (\<lambda>(i, item). pair_count item) (enumerate 0 ps)"
    by (simp add: right_of_pairs_def case_prod_unfold comp_def)
  also have "\<dots> = map pair_count ps" by (rule map_enumerate_value)
  finally show ?thesis .
qed

lemma loadDefaultData_columns:
  "mset (map (\<lambda>l. \<lparr>pair_svg = svg l, pair_count = item_count l\<rparr>)
           (ns_leftItems (fst (loadDefaultData rnd i s)))) = mset defaultGameData
   \<and> mset (map item_count (ns_rightItems (fst (loadDefaultData rnd i s))))
       = mset (map pair_count defaultGameData)
   \<and> ns_connections (fst (loadDefaultData rnd i s)) = Map.empty
   \<and> ns_selectedLeft (fst (loadDefaultData rnd i s)) = None
   \<and> ns_error (fst (loadDefaultData rnd i s)) = None
   \<and> ns_theme (fst (loadDefaultData rnd i s)) = ns_theme s
   \<and> ns_isLoading (fst (loadDefaultData rnd i s)) = ns_isLoading s"
proof -
  obtain bs j where bs: "shuffleArray rnd i defaultGameData = (bs, j)"
    by (cases "shuffleArray rnd i defaultGameData")
  obtain rs k where rs: "shuffleArray rnd j (right_of_pairs bs) = (rs, k)"
    by (cases "shuffleArray rnd j (right_of_pairs bs)")
  have d: "fst (loadDefaultData rnd i s)
      = s\<lparr>ns_leftItems := left_of_pairs bs, ns_rightItems := rs,
          ns_connections := Map.empty, ns_selectedLeft := None, ns_error := None\<rparr>"
    by (simp add: loadDefaultData_def bs rs)
  have mb: "mset bs = mset defaultGameData" using mset_shuffleArray [of rnd i defaultGameData] bs by simp
  have "mset rs = mset (right_of_pairs bs)"
    using mset_shuffleArray [of rnd j "right_of_pairs bs"] rs by simp
  then have "mset (map item_count rs) = mset (map item_count (right_of_pairs bs))"
    by (metis mset_map)
  also have "\<dots> = mset (map pair_count bs)" by (simp only: counts_of_right)
  also have "\<dots> = mset (map pair_count defaultGameData)" using mb by (metis mset_map)
  finally have r: "mset (map item_count rs) = mset (map pair_count defaultGameData)" .
  show ?thesis unfolding d using mb r by (simp add: pairs_of_left)
qed





lemma trim_samples: "trim ''dong vat'' \<noteq> [] \<and> trim ''don gian'' \<noteq> []"
  by (simp add: trim_def is_space_def)




lemma ns_try_sample:
  "ns_try draws_cycle 0 (Inr (PairArray (take 4 defaultGameData)))
      (ns_initial\<lparr>ns_isLoading := True, ns_error := None\<rparr>) = Inl (ErrorObj ns_msg_invalid)"
  by (simp add: ns_try_def defaultGameData_def)

lemma ns_default_cycle:
  "map item_count (ns_leftItems (fst (loadDefaultData draws_cycle 0 ns_initial))) = [5, 4, 3, 2, 1]
   \<and> map ns_id (ns_leftItems (fst (loadDefaultData draws_cycle 0 ns_initial)))
       = [''l-0'', ''l-1'', ''l-2'', ''l-3'', ''l-4'']
   \<and> map item_count (ns_rightItems (fst (loadDefaultData draws_cycle 0 ns_initial)))
       = [1, 4, 5, 3, 2]"
  by (simp add: loadDefaultData_def shuffleArray_def draws_cycle_def defaultGameData_def
      left_of_pairs_def right_of_pairs_def show_nat.simps digit_char_def)

lemma th_try_sample:
  "th_try (Inr no_missing_response)
      (th_initial\<lparr>th_isLoading := True, th_error := None, th_selection := None, th_puzzle := None\<rparr>)
     = Inl (ErrorObj th_msg_invalid)"
  by (simp add: th_try_def no_missing_response_def defaultPuzzle_grid_def Let_def)



text \<open>
  C6. What the code does on a malformed response. In TimHinhDung a response whose grid
  has no \<^verbatim>\<open>MISSING\<close> cell ends in the state that holds exactly the default puzzle
  (with the missing cell at index 4), and in NoiSo a response of 4 pairs ends with the
  default pairs in the columns; but in both the error is \<^verbatim>\<open>null\<close> at the end: the
  handler sets the message and then calls the loader of the default data, whose last
  statement clears the error. This holds for every thrown value and every state.
\<close>

theorem fallback_clears_notice:
  "th_generateNew (Inr no_missing_response) th_initial
     = \<lparr>th_puzzle = Some \<lparr>grid = defaultPuzzle_grid, options = defaultPuzzle_options,
                           correctOptionIndex = Some 1, missingIndex = 4\<rparr>,
        th_isLoading = False, th_error = None, th_selection = None\<rparr>
   \<and> th_error (th_catch e t) = None
   \<and> ns_error (fst (ns_catch rnd i e s)) = None
   \<and> ns_error (fst (ns_generateNew draws_cycle 0 (Inr (PairArray (take 4 defaultGameData))) ns_initial))
       = None
   \<and> map item_count (ns_leftItems (fst (ns_generateNew draws_cycle 0
          (Inr (PairArray (take 4 defaultGameData))) ns_initial))) = [5, 4, 3, 2, 1]"
proof -
  have a: "th_try (Inr no_missing_response)
        (th_initial\<lparr>th_isLoading := True, th_error := None, th_selection := None, th_puzzle := None\<rparr>)
      = Inl (ErrorObj th_msg_invalid)"
    by (rule th_try_sample)
  have b: "indexOf defaultPuzzle_grid ''MISSING'' = 4"
    by (simp add: defaultPuzzle_grid_def Let_def)
  have c: "th_generateNew (Inr no_missing_response) th_initial
     = \<lparr>th_puzzle = Some \<lparr>grid = defaultPuzzle_grid, options = defaultPuzzle_options,
                           correctOptionIndex = Some 1, missingIndex = 4\<rparr>,
        th_isLoading = False, th_error = None, th_selection = None\<rparr>"
    unfolding th_generateNew_def Let_def a
    by (simp add: th_catch_def loadDefaultPuzzle_def b th_initial_def
        defaultPuzzle_correctOptionIndex_def)
  have d: "th_error (th_catch e t) = None" by (simp add: th_catch_def loadDefaultPuzzle_def)
  have f: "ns_error (fst (ns_catch rnd i e s)) = None"
    using loadDefaultData_columns [of rnd i "s\<lparr>ns_error := Some (ns_errorMessage e)\<rparr>"]
    by (simp add: ns_catch_def)
  have g: "fst (ns_generateNew draws_cycle 0 (Inr (PairArray (take 4 defaultGameData))) ns_initial)
      = (fst (loadDefaultData draws_cycle 0 ns_initial))\<lparr>ns_isLoading := False\<rparr>"
  proof -
    have "trim (ns_theme (ns_initial\<lparr>ns_isLoading := True, ns_error := None\<rparr>)) \<noteq> []"
      using trim_samples by (simp add: ns_initial_def)
    moreover have "loadDefaultData draws_cycle 0
          (ns_initial\<lparr>ns_isLoading := True, ns_error := None, ns_error := Some (ns_errorMessage (ErrorObj ns_msg_invalid))\<rparr>)
        = (case loadDefaultData draws_cycle 0 ns_initial of (d, j) \<Rightarrow> (d, j))"
      by (simp add: loadDefaultData_def ns_initial_def split: prod.splits)
    ultimately show ?thesis
      using ns_try_sample
      by (simp add: ns_generateNew_def Let_def ns_catch_def split: prod.splits)
  qed
  have h: "ns_error (fst (loadDefaultData draws_cycle 0 ns_initial)) = None"
    using loadDefaultData_columns [of draws_cycle 0 ns_initial] by simp
  show ?thesis using c d f h ns_default_cycle by (simp add: g)
qed


section \<open>Properties of the export\<close>








end
